theory Spec2Isabelle
  imports Complex_Main "HOL-Library.Monad_Syntax"
begin

section \<open>Data model\<close>

text \<open>
  The solver of \<^verbatim>\<open>simulator.js\<close> works on JavaScript arrays of numbers. A scalar field is
  a three-dimensional array \<^verbatim>\<open>X[i][j][k]\<close>, allocated with \<^verbatim>\<open>N[d]+2\<close> cells on axis \<^verbatim>\<open>d\<close>.
  It is modelled as a function of its three indices; the numbers it holds are modelled
  as reals (the finite values of a JavaScript number, with exact arithmetic), and the
  integers of the program (indices, grid sizes, boundary modes, dimension indices) as
  \<^typ>\<open>int\<close>. The values of a JavaScript number that are no finite number, the infinities
  and NaN, are modelled where they decide what the program does: in the coordinates of
  the advector.
\<close>

type_synonym field = "int \<Rightarrow> int \<Rightarrow> int \<Rightarrow> real"

text \<open>The assignment \<^verbatim>\<open>X[i][j][k] = v\<close>.\<close>

definition put :: "field \<Rightarrow> int \<Rightarrow> int \<Rightarrow> int \<Rightarrow> real \<Rightarrow> field" where
  "put X i j k v = X(i := (X i)(j := (X i j)(k := v)))"

text \<open>
  The loop \<^verbatim>\<open>for(var i=lo; i<=hi; i++) body\<close>, threading the state the body mutates.
\<close>

definition for_loop :: "int \<Rightarrow> int \<Rightarrow> (int \<Rightarrow> 's \<Rightarrow> 's) \<Rightarrow> 's \<Rightarrow> 's" where
  "for_loop lo hi body s = fold body [lo..hi] s"

text \<open>The constants at the head of \<^verbatim>\<open>simulator.js\<close>.\<close>

definition N_SOLVER_ITERS :: int where
  "N_SOLVER_ITERS = 20"

definition BOUNDARY_MIRROR :: int where
  "BOUNDARY_MIRROR = 0"

definition BOUNDARY_OPPOSE_X :: int where
  "BOUNDARY_OPPOSE_X = 1"

definition BOUNDARY_OPPOSE_Y :: int where
  "BOUNDARY_OPPOSE_Y = 2"

text \<open>
  Modelled from the spec: the dimension indices \<^verbatim>\<open>X_DIM\<close>, \<^verbatim>\<open>Y_DIM\<close>, \<^verbatim>\<open>Z_DIM\<close> and the
  number of dimensions \<^verbatim>\<open>N_DIMS\<close> are globals of the grid's file, which is not among the
  sources. The spec orders the dimensions X, Y and an unused Z, and ties the boundary
  mode of a component to its dimension index plus one (X to \<^verbatim>\<open>OPPOSE_X\<close>, Y to
  \<^verbatim>\<open>OPPOSE_Y\<close>); the constructor passes the sizes as \<^verbatim>\<open>[N, N, 1]\<close>.
\<close>

definition X_DIM :: int where
  "X_DIM = 0"

definition Y_DIM :: int where
  "Y_DIM = 1"

definition Z_DIM :: int where
  "Z_DIM = 2"

definition N_DIMS :: int where
  "N_DIMS = 3"

section \<open>The boundary fill\<close>

text \<open>
  \<^verbatim>\<open>setBoundary(X, mode = BOUNDARY_MIRROR)\<close>, lines 146 to 180. \<open>N\<close> is \<^verbatim>\<open>this.grid.N\<close>, the
  array of the active sizes. The three parts are the two edge loops and the four
  corner assignments, in the order of the source.
\<close>

definition setBoundary_leftRight :: "int \<Rightarrow> int \<Rightarrow> int \<Rightarrow> int \<Rightarrow> field \<Rightarrow> field" where
  "setBoundary_leftRight lastX lastY edgeX mode X =
     for_loop 1 lastY (\<lambda>j X.
       if mode = BOUNDARY_OPPOSE_X then
         (let X = put X 0 j 1 (- X 1 j 1) in
          put X edgeX j 1 (- X lastX j 1))
       else
         (let X = put X 0 j 1 (X 1 j 1) in
          put X edgeX j 1 (X lastX j 1))) X"

definition setBoundary_topBottom :: "int \<Rightarrow> int \<Rightarrow> int \<Rightarrow> int \<Rightarrow> field \<Rightarrow> field" where
  "setBoundary_topBottom lastX lastY edgeY mode X =
     for_loop 1 lastX (\<lambda>i X.
       if mode = BOUNDARY_OPPOSE_Y then
         (let X = put X i 0 1 (- X i 1 1) in
          put X i edgeY 1 (- X i lastY 1))
       else
         (let X = put X i 0 1 (X i 1 1) in
          put X i edgeY 1 (X i lastY 1))) X"

definition setBoundary_corners :: "int \<Rightarrow> int \<Rightarrow> int \<Rightarrow> int \<Rightarrow> field \<Rightarrow> field" where
  "setBoundary_corners lastX lastY edgeX edgeY X =
     (let X = put X 0 0 1 (0.5 * (X 1 0 1 + X 0 1 1));
          X = put X 0 edgeY 1 (0.5 * (X 1 edgeY 1 + X 0 lastY 1));
          X = put X edgeX 0 1 (0.5 * (X lastX 0 1 + X edgeX 1 1))
      in put X edgeX edgeY 1 (0.5 * (X lastX edgeY 1 + X edgeX lastY 1)))"

definition setBoundary :: "(int \<Rightarrow> int) \<Rightarrow> field \<Rightarrow> int \<Rightarrow> field" where
  "setBoundary N X mode =
     (let lastX = N X_DIM;
          lastY = N Y_DIM;
          edgeX = lastX + 1;
          edgeY = lastY + 1;
          X = setBoundary_leftRight lastX lastY edgeX mode X;
          X = setBoundary_topBottom lastX lastY edgeY mode X
      in setBoundary_corners lastX lastY edgeX edgeY X)"


section \<open>The heap of fields\<close>

text \<open>
  The operators receive arrays by reference and mutate them, and the caller may pass
  the same array in two roles (\<^verbatim>\<open>vStep\<close> advects \<^verbatim>\<open>vel[dim]\<close> through \<^verbatim>\<open>vel\<close>). A field
  argument is therefore a reference into a store of fields, and every operator takes
  the store and returns the store it leaves behind. A vector field (\<^verbatim>\<open>vel\<close>, an array of
  fields indexed by dimension) is a function from the dimension index to references.
\<close>

type_synonym ref = nat

type_synonym store = "ref \<Rightarrow> field"

text \<open>The assignment \<^verbatim>\<open>r[i][j][k] = v\<close> on the array that \<open>r\<close> refers to.\<close>

definition wr :: "store \<Rightarrow> ref \<Rightarrow> int \<Rightarrow> int \<Rightarrow> int \<Rightarrow> real \<Rightarrow> store" where
  "wr st r i j k v = st(r := put (st r) i j k v)"

section \<open>The operators\<close>

text \<open>
  \<^verbatim>\<open>addSource(dest, source)\<close>, lines 35 to 40. The loops run while the index is below
  \<^verbatim>\<open>N[d]+2\<close>, that is up to \<^verbatim>\<open>N[d]+1\<close>.
\<close>

definition addSource :: "(int \<Rightarrow> int) \<Rightarrow> real \<Rightarrow> ref \<Rightarrow> ref \<Rightarrow> store \<Rightarrow> store" where
  "addSource N timeStep dest source st =
     for_loop 0 (N X_DIM + 2 - 1) (\<lambda>i.
       for_loop 0 (N Y_DIM + 2 - 1) (\<lambda>j.
         for_loop 0 (N Z_DIM + 2 - 1) (\<lambda>k st.
           wr st dest i j k (st dest i j k + timeStep * st source i j k)))) st"

text \<open>
  \<^verbatim>\<open>diffuse(cur, prev, k, bMode)\<close>, lines 47 to 60: \<open>diffuse_sweep\<close> is the double loop over
  the active cells (lines 50 to 57), one relaxation sweep.
\<close>

definition diffuse_sweep :: "(int \<Rightarrow> int) \<Rightarrow> real \<Rightarrow> ref \<Rightarrow> ref \<Rightarrow> store \<Rightarrow> store" where
  "diffuse_sweep N a cur prev st =
     for_loop 1 (N X_DIM) (\<lambda>i.
       for_loop 1 (N Y_DIM) (\<lambda>j st.
         wr st cur i j 1
           ((st prev i j 1
             + a * (st cur (i - 1) j 1 + st cur (i + 1) j 1 +
                    st cur i (j - 1) 1 + st cur i (j + 1) 1))
            / (1 + 4 * a)))) st"

definition diffuse :: "(int \<Rightarrow> int) \<Rightarrow> real \<Rightarrow> ref \<Rightarrow> ref \<Rightarrow> real \<Rightarrow> int \<Rightarrow> store \<Rightarrow> store" where
  "diffuse N timeStep cur prev k bMode st =
     (let a = timeStep * k * real_of_int (N X_DIM) * real_of_int (N Y_DIM) in
      for_loop 0 (N_SOLVER_ITERS - 1) (\<lambda>iter st.
        let st = diffuse_sweep N a cur prev st
        in st(cur := setBoundary N (st cur) bMode)) st)"

text \<open>
  \<^verbatim>\<open>advect(cur, prev, vel, bMode)\<close>, lines 65 to 96. The coordinate of lines 71 to 75 (and 79
  to 83) is computed on JavaScript numbers, which are a finite number, an infinity or
  NaN: a comparison with NaN is false, so NaN passes both clamps, and a product of zero
  and an infinity is NaN. \<open>js_times\<close> is \<^verbatim>\<open>n * v\<close> and \<open>js_minus\<close> is \<^verbatim>\<open>i - v\<close> for an integer
  on the left, \<open>js_less\<close> and \<open>js_greater\<close> are \<^verbatim>\<open>x < c\<close> and \<^verbatim>\<open>x > c\<close> for a finite \<open>c\<close>.
\<close>

datatype js_number = Num real | PosInf | NegInf | NaN

fun js_times :: "int \<Rightarrow> js_number \<Rightarrow> js_number" where
  "js_times n (Num r) = Num (real_of_int n * r)"
| "js_times n PosInf = (if 0 < n then PosInf else if n < 0 then NegInf else NaN)"
| "js_times n NegInf = (if 0 < n then NegInf else if n < 0 then PosInf else NaN)"
| "js_times n NaN = NaN"

fun js_minus :: "int \<Rightarrow> js_number \<Rightarrow> js_number" where
  "js_minus i (Num r) = Num (real_of_int i - r)"
| "js_minus i PosInf = NegInf"
| "js_minus i NegInf = PosInf"
| "js_minus i NaN = NaN"

fun js_less :: "js_number \<Rightarrow> real \<Rightarrow> bool" where
  "js_less (Num r) c = (r < c)"
| "js_less PosInf c = False"
| "js_less NegInf c = True"
| "js_less NaN c = False"

fun js_greater :: "js_number \<Rightarrow> real \<Rightarrow> bool" where
  "js_greater (Num r) c = (r > c)"
| "js_greater PosInf c = True"
| "js_greater NegInf c = False"
| "js_greater NaN c = False"

definition advect_coord :: "int \<Rightarrow> int \<Rightarrow> int \<Rightarrow> js_number \<Rightarrow> js_number" where
  "advect_coord n d i v =
     (let x = js_minus i (js_times d v);
          x = (if js_less x 0.5 then Num 0.5 else x);
          x = (if js_greater x (real_of_int n + 0.5) then Num (real_of_int n + 0.5) else x)
      in x)"

text \<open>
  The body of the loops for the cell \<open>(i, j)\<close>, lines 71 to 92, given the two velocities
  \<open>vx\<close> and \<open>vy\<close> read at lines 71 and 79. \<^verbatim>\<open>Math.floor\<close> of a finite coordinate is an
  integer; of NaN or an infinity it is NaN or that infinity, which is no index of an
  array. Reading \<^verbatim>\<open>prev[i0][j0][1]\<close> with an index that is no integer of the allocated
  range \<^verbatim>\<open>0 .. N+1\<close> finds \<^verbatim>\<open>undefined\<close> where an array is expected, and indexing
  \<^verbatim>\<open>undefined\<close> throws a TypeError: the cell's update returns \<open>None\<close> there, and the
  exception ends the loops and the call.
\<close>

definition in_field :: "(int \<Rightarrow> int) \<Rightarrow> int \<Rightarrow> int \<Rightarrow> bool" where
  "in_field N i j = (0 \<le> i \<and> i \<le> N X_DIM + 1 \<and> 0 \<le> j \<and> j \<le> N Y_DIM + 1)"

definition advect_cell_js ::
  "(int \<Rightarrow> int) \<Rightarrow> int \<Rightarrow> int \<Rightarrow> ref \<Rightarrow> ref \<Rightarrow> int \<Rightarrow> int \<Rightarrow> js_number \<Rightarrow> js_number \<Rightarrow>
     store \<Rightarrow> store option" where
  "advect_cell_js N dX dY cur prev i j vx vy st =
     (case (advect_coord (N X_DIM) dX i vx, advect_coord (N Y_DIM) dY j vy) of
        (Num x, Num y) \<Rightarrow>
          (let i0 = \<lfloor>x\<rfloor>;
               i1 = i0 + 1;
               j0 = \<lfloor>y\<rfloor>;
               j1 = j0 + 1;
               s1 = x - real_of_int i0;
               s0 = 1 - s1;
               t1 = y - real_of_int j0;
               t0 = 1 - t1
           in if in_field N i0 j0 \<and> in_field N i0 j1 \<and> in_field N i1 j0 \<and> in_field N i1 j1
              then Some (wr st cur i j 1
                     (s0 * (t0 * st prev i0 j0 1 + t1 * st prev i0 j1 1) +
                      s1 * (t0 * st prev i1 j0 1 + t1 * st prev i1 j1 1)))
              else None)
      | _ \<Rightarrow> None)"

text \<open>
  On a store, whose cells hold finite numbers, the velocities read are finite numbers.
\<close>

definition advect_cell ::
  "(int \<Rightarrow> int) \<Rightarrow> int \<Rightarrow> int \<Rightarrow> ref \<Rightarrow> ref \<Rightarrow> (int \<Rightarrow> ref) \<Rightarrow> int \<Rightarrow> int \<Rightarrow> store \<Rightarrow> store option" where
  "advect_cell N dX dY cur prev vel i j st =
     advect_cell_js N dX dY cur prev i j
       (Num (st (vel X_DIM) i j 1)) (Num (st (vel Y_DIM) i j 1)) st"

definition advect ::
  "(int \<Rightarrow> int) \<Rightarrow> ref \<Rightarrow> ref \<Rightarrow> (int \<Rightarrow> ref) \<Rightarrow> int \<Rightarrow> store \<Rightarrow> store option" where
  "advect N cur prev vel bMode st =
     (let dX = N X_DIM;
          dY = N Y_DIM
      in do {
        st \<leftarrow> for_loop 1 (N X_DIM) (\<lambda>i.
                for_loop 1 (N Y_DIM) (\<lambda>j acc.
                  do { st \<leftarrow> acc; advect_cell N dX dY cur prev vel i j st })) (Some st);
        Some (st(cur := setBoundary N (st cur) bMode))
      })"

text \<open>
  \<^verbatim>\<open>project(vel, buf)\<close>, lines 99 to 135, with its three double loops: the divergence and
  the zeroed pressure (lines 105 to 111), one relaxation sweep of the pressure (lines
  116 to 123), and the subtraction of the pressure gradient (lines 127 to 132). A call
  of \<^verbatim>\<open>setBoundary\<close> without a mode takes the default \<^verbatim>\<open>BOUNDARY_MIRROR\<close>; the
  source's \<^verbatim>\<open>div\<close> is \<open>dv\<close> here.
\<close>

definition project_div ::
  "(int \<Rightarrow> int) \<Rightarrow> real \<Rightarrow> real \<Rightarrow> (int \<Rightarrow> ref) \<Rightarrow> ref \<Rightarrow> ref \<Rightarrow> store \<Rightarrow> store" where
  "project_div N Lx Ly vel p dv st =
     for_loop 1 (N X_DIM) (\<lambda>i.
       for_loop 1 (N Y_DIM) (\<lambda>j st.
         let st = wr st dv i j 1
               (- 0.5 * (Lx * (st (vel X_DIM) (i + 1) j 1 - st (vel X_DIM) (i - 1) j 1) +
                         Ly * (st (vel Y_DIM) i (j + 1) 1 - st (vel Y_DIM) i (j - 1) 1)))
         in wr st p i j 1 0)) st"

definition project_sweep :: "(int \<Rightarrow> int) \<Rightarrow> ref \<Rightarrow> ref \<Rightarrow> store \<Rightarrow> store" where
  "project_sweep N p dv st =
     for_loop 1 (N X_DIM) (\<lambda>i.
       for_loop 1 (N Y_DIM) (\<lambda>j st.
         wr st p i j 1
           ((st dv i j 1
             + st p (i - 1) j 1 + st p (i + 1) j 1
             + st p i (j - 1) 1 + st p i (j + 1) 1)
            / 4))) st"

definition project_grad ::
  "(int \<Rightarrow> int) \<Rightarrow> real \<Rightarrow> real \<Rightarrow> (int \<Rightarrow> ref) \<Rightarrow> ref \<Rightarrow> store \<Rightarrow> store" where
  "project_grad N Lx Ly vel p st =
     for_loop 1 (N X_DIM) (\<lambda>i.
       for_loop 1 (N Y_DIM) (\<lambda>j st.
         let st = wr st (vel X_DIM) i j 1
               (st (vel X_DIM) i j 1 - 0.5 * (st p (i + 1) j 1 - st p (i - 1) j 1) / Lx)
         in wr st (vel Y_DIM) i j 1
               (st (vel Y_DIM) i j 1 - 0.5 * (st p i (j + 1) 1 - st p i (j - 1) 1) / Ly))) st"

definition project :: "(int \<Rightarrow> int) \<Rightarrow> (int \<Rightarrow> ref) \<Rightarrow> (int \<Rightarrow> ref) \<Rightarrow> store \<Rightarrow> store" where
  "project N vel buf st =
     (let Lx = 1.0 / real_of_int (N X_DIM);
          Ly = 1.0 / real_of_int (N Y_DIM);
          p = buf X_DIM;
          dv = buf Y_DIM;
          st = project_div N Lx Ly vel p dv st;
          st = st(dv := setBoundary N (st dv) BOUNDARY_MIRROR);
          st = st(p := setBoundary N (st p) BOUNDARY_MIRROR);
          st = for_loop 0 (N_SOLVER_ITERS - 1) (\<lambda>iter st.
                 let st = project_sweep N p dv st
                 in st(p := setBoundary N (st p) BOUNDARY_MIRROR)) st;
          st = project_grad N Lx Ly vel p st;
          st = st(vel X_DIM := setBoundary N (st (vel X_DIM)) BOUNDARY_OPPOSE_X)
      in st(vel Y_DIM := setBoundary N (st (vel Y_DIM)) BOUNDARY_OPPOSE_Y))"

section \<open>The simulator\<close>

text \<open>
  The state of a \<^verbatim>\<open>Simulator\<close> object: its constants, its grid (the sizes \<^verbatim>\<open>N\<close> and the
  references of the current and previous velocity and density fields), the persistent
  velocity source \<^verbatim>\<open>v_src\<close>, and the store that holds the fields. The fields of the
  records are the source's names, prefixed.
\<close>

record grid =
  grid_N :: "int \<Rightarrow> int"
  grid_vel :: "int \<Rightarrow> ref"
  grid_prev_vel :: "int \<Rightarrow> ref"
  grid_dens :: ref
  grid_prev_dens :: ref

record simulator =
  sim_diff :: real
  sim_visc :: real
  sim_timeStep :: real
  sim_grid :: grid
  sim_v_src :: "int \<Rightarrow> ref"
  sim_heap :: store

text \<open>A three-element array literal \<^verbatim>\<open>[a, b, c]\<close>, read by its index.\<close>

definition array3 :: "'a \<Rightarrow> 'a \<Rightarrow> 'a \<Rightarrow> int \<Rightarrow> 'a" where
  "array3 a b c d = (if d = 0 then a else if d = 1 then b else c)"

text \<open>
  Modelled from the spec: the constructor of \<^verbatim>\<open>Grid\<close> and its method \<^verbatim>\<open>swapV\<close> are in the
  grid's file, which is not among the sources. By the spec the grid owns the current and
  the previous velocity, one scalar field per dimension, and the current and previous
  density, each field allocated once with \<^verbatim>\<open>N[d]+2\<close> cells on axis \<^verbatim>\<open>d\<close>, and \<^verbatim>\<open>swapV\<close> swaps
  current and previous velocity. The fields are eight distinct arrays; the region's
  width and height are not used by the solver.
\<close>

definition Grid :: "(int \<Rightarrow> int) \<Rightarrow> (int \<Rightarrow> real) \<Rightarrow> grid" where
  "Grid Ns sizes =
     \<lparr>grid_N = Ns,
      grid_vel = (\<lambda>d. nat d),
      grid_prev_vel = (\<lambda>d. 3 + nat d),
      grid_dens = 6,
      grid_prev_dens = 7\<rparr>"

definition swapV :: "grid \<Rightarrow> grid" where
  "swapV g = g\<lparr>grid_vel := grid_prev_vel g, grid_prev_vel := grid_vel g\<rparr>"

text \<open>
  The constructor \<^verbatim>\<open>Simulator(N, width, height, visc, diff, timeStep)\<close>, lines 24 to 30 and
  214 to 216. Modelled from the spec: \<^verbatim>\<open>zeros4d\<close> is not among the sources; by its name and
  its use it allocates three fields of zeros, with \<^verbatim>\<open>N[d]+2\<close> cells on axis \<^verbatim>\<open>d\<close>. The
  assignment \<^verbatim>\<open>v_src[X_DIM][5][25][1] = 500\<close> of line 216 indexes \<^verbatim>\<open>undefined\<close>, and throws
  a TypeError, when the field has no row \<open>5\<close> or no column \<open>25\<close>.
\<close>

datatype js_error = TypeError

definition Simulator ::
  "int \<Rightarrow> real \<Rightarrow> real \<Rightarrow> real \<Rightarrow> real \<Rightarrow> real \<Rightarrow> js_error + simulator" where
  "Simulator N width height visc diff timeStep =
     (let g = Grid (array3 N N 1) (array3 width height 0);
          v_src = (\<lambda>d. 8 + nat d);
          zeros = (\<lambda>r i j k. 0)
      in if 5 \<le> grid_N g X_DIM + 1 \<and> 25 \<le> grid_N g Y_DIM + 1
         then Inr \<lparr>sim_diff = diff,
                   sim_visc = visc,
                   sim_timeStep = timeStep,
                   sim_grid = g,
                   sim_v_src = v_src,
                   sim_heap = wr zeros (v_src X_DIM) 5 25 1 500\<rparr>
         else Inl TypeError)"

text \<open>
  The calls \<^verbatim>\<open>this.addSource(...)\<close>, \<^verbatim>\<open>this.diffuse(...)\<close>, \<^verbatim>\<open>this.advect(...)\<close>,
  \<^verbatim>\<open>this.project(...)\<close> and \<^verbatim>\<open>this.grid.swapV()\<close> on a simulator: the operator reads the
  grid sizes and the time step of \<^verbatim>\<open>this\<close> and works on its store.
\<close>

definition this_addSource :: "simulator \<Rightarrow> ref \<Rightarrow> ref \<Rightarrow> simulator" where
  "this_addSource S dest source =
     S\<lparr>sim_heap := addSource (grid_N (sim_grid S)) (sim_timeStep S) dest source (sim_heap S)\<rparr>"

definition this_diffuse :: "simulator \<Rightarrow> ref \<Rightarrow> ref \<Rightarrow> real \<Rightarrow> int \<Rightarrow> simulator" where
  "this_diffuse S cur prev k bMode =
     S\<lparr>sim_heap := diffuse (grid_N (sim_grid S)) (sim_timeStep S) cur prev k bMode (sim_heap S)\<rparr>"

definition this_advect ::
  "simulator \<Rightarrow> ref \<Rightarrow> ref \<Rightarrow> (int \<Rightarrow> ref) \<Rightarrow> int \<Rightarrow> simulator option" where
  "this_advect S cur prev vel bMode =
     do {
       h \<leftarrow> advect (grid_N (sim_grid S)) cur prev vel bMode (sim_heap S);
       Some (S\<lparr>sim_heap := h\<rparr>)
     }"

definition this_project :: "simulator \<Rightarrow> (int \<Rightarrow> ref) \<Rightarrow> (int \<Rightarrow> ref) \<Rightarrow> simulator" where
  "this_project S vel buf =
     S\<lparr>sim_heap := project (grid_N (sim_grid S)) vel buf (sim_heap S)\<rparr>"

definition this_swapV :: "simulator \<Rightarrow> simulator" where
  "this_swapV S = S\<lparr>sim_grid := swapV (sim_grid S)\<rparr>"

text \<open>\<^verbatim>\<open>vStep()\<close>, lines 183 to 199. An exception of \<^verbatim>\<open>advect\<close> ends the step.\<close>

definition vStep :: "simulator \<Rightarrow> simulator option" where
  "vStep S =
     (let S = for_loop 0 (N_DIMS - 1) (\<lambda>dim S.
                let S = this_addSource S (grid_vel (sim_grid S) dim) (grid_prev_vel (sim_grid S) dim)
                in this_addSource S (grid_vel (sim_grid S) dim) (sim_v_src S dim)) S;
          S = this_swapV S;
          S = for_loop 0 (N_DIMS - 1) (\<lambda>dim S.
                this_diffuse S (grid_vel (sim_grid S) dim) (grid_prev_vel (sim_grid S) dim)
                  (sim_visc S) (dim + 1)) S;
          S = this_project S (grid_vel (sim_grid S)) (grid_prev_vel (sim_grid S));
          S = this_swapV S
      in do {
        S \<leftarrow> for_loop 0 (N_DIMS - 1) (\<lambda>dim acc.
               do {
                 S \<leftarrow> acc;
                 this_advect S (grid_vel (sim_grid S) dim) (grid_prev_vel (sim_grid S) dim)
                   (grid_vel (sim_grid S)) (dim + 1)
               }) (Some S);
        Some (this_project S (grid_vel (sim_grid S)) (grid_prev_vel (sim_grid S)))
      })"

section \<open>The words of the spec\<close>

text \<open>
  The advector of the spec: the coordinate \<open>i - N * v\<close> of the backtracked position,
  clamped into \<open>[0.5, N + 0.5]\<close>, and the bilinear interpolation of a field at a position,
  from the four cells around it and the fractional remainders.
\<close>

definition clamp :: "real \<Rightarrow> real \<Rightarrow> real \<Rightarrow> real" where
  "clamp lo hi x = min (max x lo) hi"

definition backtracked :: "int \<Rightarrow> int \<Rightarrow> real \<Rightarrow> real" where
  "backtracked n i v = clamp 0.5 (real_of_int n + 0.5) (real_of_int i - real_of_int n * v)"

definition bilinear :: "field \<Rightarrow> real \<Rightarrow> real \<Rightarrow> real" where
  "bilinear F x y =
     (let i0 = \<lfloor>x\<rfloor>;
          j0 = \<lfloor>y\<rfloor>;
          s1 = x - real_of_int i0;
          t1 = y - real_of_int j0
      in (1 - s1) * ((1 - t1) * F i0 j0 1 + t1 * F i0 (j0 + 1) 1) +
         s1 * ((1 - t1) * F (i0 + 1) j0 1 + t1 * F (i0 + 1) (j0 + 1) 1))"

text \<open>
  The velocity step of the spec, as the sequence of its operations: for each dimension
  the two source additions; the swap; the diffusion of each component, the X component
  with \<open>OPPOSE_X\<close> and the Y component with \<open>OPPOSE_Y\<close> (the mode is the dimension index
  plus one); the projection; the swap; the advection of each component through the
  current velocity field, with the same modes; the projection.
\<close>

definition vStep_add :: "int \<Rightarrow> simulator \<Rightarrow> simulator" where
  "vStep_add d S =
     this_addSource
       (this_addSource S (grid_vel (sim_grid S) d) (grid_prev_vel (sim_grid S) d))
       (grid_vel (sim_grid S) d) (sim_v_src S d)"

definition vStep_diffuse :: "int \<Rightarrow> int \<Rightarrow> simulator \<Rightarrow> simulator" where
  "vStep_diffuse d bMode S =
     this_diffuse S (grid_vel (sim_grid S) d) (grid_prev_vel (sim_grid S) d) (sim_visc S) bMode"

definition vStep_advect :: "int \<Rightarrow> int \<Rightarrow> simulator \<Rightarrow> simulator option" where
  "vStep_advect d bMode S =
     this_advect S (grid_vel (sim_grid S) d) (grid_prev_vel (sim_grid S) d)
       (grid_vel (sim_grid S)) bMode"

definition vStep_project :: "simulator \<Rightarrow> simulator" where
  "vStep_project S = this_project S (grid_vel (sim_grid S)) (grid_prev_vel (sim_grid S))"

definition vStep_in_order :: "simulator \<Rightarrow> simulator option" where
  "vStep_in_order S =
     (let S = vStep_add X_DIM S;
          S = vStep_add Y_DIM S;
          S = vStep_add Z_DIM S;
          S = this_swapV S;
          S = vStep_diffuse X_DIM BOUNDARY_OPPOSE_X S;
          S = vStep_diffuse Y_DIM BOUNDARY_OPPOSE_Y S;
          S = vStep_diffuse Z_DIM (Z_DIM + 1) S;
          S = vStep_project S;
          S = this_swapV S
      in do {
        S \<leftarrow> vStep_advect X_DIM BOUNDARY_OPPOSE_X S;
        S \<leftarrow> vStep_advect Y_DIM BOUNDARY_OPPOSE_Y S;
        S \<leftarrow> vStep_advect Z_DIM (Z_DIM + 1) S;
        Some (vStep_project S)
      })"

section \<open>Cells of the store\<close>

text \<open>
  For the proofs about the loops: a cell of the store is a reference with three indices,
  \<open>rd4\<close> reads a cell, and \<open>W2 R (i, j)\<close> are the cells that the iteration \<open>(i, j)\<close> of
  a double loop over the active cells may write, when it writes the arrays \<open>R\<close>.
\<close>

definition rd4 :: "store \<Rightarrow> ref \<times> int \<times> int \<times> int \<Rightarrow> real" where
  "rd4 st c = (case c of (r, i, j, k) \<Rightarrow> st r i j k)"

definition W2 :: "ref set \<Rightarrow> int \<times> int \<Rightarrow> (ref \<times> int \<times> int \<times> int) set" where
  "W2 R x = (case x of (i, j) \<Rightarrow> {(r, i, j, 1) | r. r \<in> R})"

section \<open>Loops and array writes\<close>

lemma put_apply:
  "put X i j k v i' j' k' = (if i' = i \<and> j' = j \<and> k' = k then v else X i' j' k')"
  by (simp add: put_def)

lemma for_loop_empty: "hi < lo \<Longrightarrow> for_loop lo hi body s = s"
  by (simp add: for_loop_def)

lemma for_loop_last:
  "lo \<le> hi \<Longrightarrow> for_loop lo hi body s = body hi (for_loop lo (hi - 1) body s)"
  by (simp add: for_loop_def upto_rec2)

lemma for_loop_upto:
  assumes "lo - 1 \<le> h" and "h \<le> hi" and "P lo s"
    and step: "\<And>i t. lo \<le> i \<Longrightarrow> i \<le> hi \<Longrightarrow> P i t \<Longrightarrow> P (i + 1) (body i t)"
  shows "P (h + 1) (for_loop lo h body s)"
  using assms(1,2)
proof (induction h rule: int_ge_induct)
  case base
  show ?case using assms(3) by (simp add: for_loop_empty)
next
  case (step h)
  have le: "lo \<le> h + 1" using step.hyps by simp
  have "P (h + 1) (for_loop lo h body s)" using step by simp
  then have "P (h + 1 + 1) (body (h + 1) (for_loop lo h body s))"
    using le step.prems by (intro assms(4)) simp_all
  then show ?case using for_loop_last [OF le, of body s] by simp
qed

text \<open>
  The invariant rule of the loop: \<open>P i\<close> holds before the iteration of index \<open>i\<close>
  and \<open>P (i + 1)\<close> after it.
\<close>

lemma for_loop_rule:
  assumes init: "P lo s"
    and step: "\<And>i t. lo \<le> i \<Longrightarrow> i \<le> hi \<Longrightarrow> P i t \<Longrightarrow> P (i + 1) (body i t)"
  shows "P (max lo (hi + 1)) (for_loop lo hi body s)"
proof (cases "lo \<le> hi")
  case True
  have a: "lo - 1 \<le> hi" using True by simp
  have b: "hi \<le> hi" by simp
  have "P (hi + 1) (for_loop lo hi body s)"
    by (rule for_loop_upto [of lo hi hi P s body, OF a b init step])
  then show ?thesis using True by (simp add: max_def)
next
  case False
  then have "max lo (hi + 1) = lo" by simp
  then show ?thesis using False init by (simp add: for_loop_empty)
qed

lemma fold_frame:
  assumes "\<forall>x\<in>set xs. \<forall>t. c \<notin> W x \<longrightarrow> rd (b x t) c = rd t c"
    and "\<forall>x\<in>set xs. c \<notin> W x"
  shows "rd (fold b xs s) c = rd s c"
  using assms by (induction xs arbitrary: s) simp_all

lemma fold_cell:
  assumes frame: "\<forall>x\<in>set xs. \<forall>t c. c \<notin> W x \<longrightarrow> rd (b x t) c = rd t c"
    and disj: "\<forall>x\<in>set xs. \<forall>y\<in>set xs. \<forall>c. x \<noteq> y \<longrightarrow> c \<in> W x \<longrightarrow> c \<notin> W y"
    and xs: "xs = ys @ x # zs" and dist: "distinct xs"
  shows "(\<forall>c\<in>W x. rd (fold b xs s) c = rd (b x (fold b ys s)) c)
       \<and> (\<forall>c. (\<forall>y\<in>set ys. c \<notin> W y) \<longrightarrow> rd (fold b ys s) c = rd s c)
       \<and> (\<forall>y\<in>set ys. \<forall>c\<in>W y. rd (fold b ys s) c = rd (fold b xs s) c)"
proof (intro conjI ballI allI impI)
  fix c assume c: "c \<in> W x"
  have a: "\<forall>z\<in>set zs. \<forall>t. c \<notin> W z \<longrightarrow> rd (b z t) c = rd t c"
    using frame xs by simp
  have "\<forall>z\<in>set zs. z \<in> set xs \<and> x \<in> set xs \<and> x \<noteq> z" using xs dist by auto
  then have b: "\<forall>z\<in>set zs. c \<notin> W z" using disj c by blast
  have "rd (fold b zs (b x (fold b ys s))) c = rd (b x (fold b ys s)) c"
    by (rule fold_frame [where xs = zs and c = c and W = W and rd = rd and b = b, OF a b])
  then show "rd (fold b xs s) c = rd (b x (fold b ys s)) c" by (simp add: xs)
next
  fix c assume c: "\<forall>y\<in>set ys. c \<notin> W y"
  have a: "\<forall>y\<in>set ys. \<forall>t. c \<notin> W y \<longrightarrow> rd (b y t) c = rd t c"
    using frame xs by simp
  show "rd (fold b ys s) c = rd s c"
    by (rule fold_frame [where xs = ys and c = c and W = W and rd = rd and b = b, OF a c])
next
  fix y c assume y: "y \<in> set ys" and c: "c \<in> W y"
  have a: "\<forall>z\<in>set (x # zs). \<forall>t. c \<notin> W z \<longrightarrow> rd (b z t) c = rd t c"
    using frame xs by simp
  have "\<forall>z\<in>set (x # zs). z \<in> set xs \<and> y \<in> set xs \<and> y \<noteq> z" using xs dist y by auto
  then have b: "\<forall>z\<in>set (x # zs). c \<notin> W z" using disj c by blast
  have "rd (fold b (x # zs) (fold b ys s)) c = rd (fold b ys s) c"
    by (rule fold_frame [where xs = "x # zs" and c = c and W = W and rd = rd and b = b, OF a b])
  then show "rd (fold b ys s) c = rd (fold b xs s) c" by (simp add: xs)
qed

lemma fold_product:
  "fold (\<lambda>x. fold (f x) ys) xs s = fold (\<lambda>(x, y). f x y) (List.product xs ys) s"
proof (induction xs arbitrary: s)
  case Nil
  show ?case by simp
next
  case (Cons x xs)
  have "fold (\<lambda>(x, y). f x y) (map (Pair x) ys) s = fold (f x) ys s"
    by (simp add: fold_map comp_def)
  then show ?case using Cons by simp
qed

lemma product_split:
  "List.product (as @ i # bs) (cs @ j # ds) =
     (List.product as (cs @ j # ds) @ map (Pair i) cs) @ (i, j) #
     (map (Pair i) ds @ List.product bs (cs @ j # ds))"
  by (induction as) simp_all

lemma wr_apply:
  "wr st r i j k v r' i' j' k' =
     (if r' = r \<and> i' = i \<and> j' = j \<and> k' = k then v else st r' i' j' k')"
  by (simp add: wr_def put_apply)

lemma for_loop_fold: "for_loop lo hi body = fold body [lo..hi]"
  by (simp add: fun_eq_iff for_loop_def)

lemma for_loop2_fold:
  "for_loop a b (\<lambda>i. for_loop c d (f i)) s =
     fold (\<lambda>(i, j). f i j) (List.product [a..b] [c..d]) s"
  by (simp add: for_loop_fold fold_product)

lemma loop2_frame_fold:
  fixes b :: "int \<Rightarrow> int \<Rightarrow> store \<Rightarrow> store"
  assumes frame: "\<And>i j t r i' j' k. 1 \<le> i \<Longrightarrow> i \<le> nx \<Longrightarrow> 1 \<le> j \<Longrightarrow> j \<le> ny \<Longrightarrow>
      \<not> (r \<in> R \<and> i' = i \<and> j' = j \<and> k = 1) \<Longrightarrow> b i j t r i' j' k = t r i' j' k"
  shows "\<forall>x\<in>set (List.product [1..nx] [1..ny]). \<forall>t c. c \<notin> W2 R x \<longrightarrow>
      rd4 ((case x of (i, j) \<Rightarrow> b i j) t) c = rd4 t c"
proof (intro ballI allI impI)
  fix x t c assume x: "x \<in> set (List.product [1..nx] [1..ny])" and c: "c \<notin> W2 R x"
  obtain i0 j0 where x0: "x = (i0, j0)" by (cases x)
  obtain r i' j' k where c0: "c = (r, i', j', k)" by (cases c)
  have "b i0 j0 t r i' j' k = t r i' j' k"
    using x c unfolding x0 c0 W2_def by (intro frame) auto
  then show "rd4 ((case x of (i, j) \<Rightarrow> b i j) t) c = rd4 t c" by (simp add: x0 c0 rd4_def)
qed

lemma loop2_frame:
  fixes b :: "int \<Rightarrow> int \<Rightarrow> store \<Rightarrow> store"
  assumes frame: "\<And>i j t r i' j' k. 1 \<le> i \<Longrightarrow> i \<le> nx \<Longrightarrow> 1 \<le> j \<Longrightarrow> j \<le> ny \<Longrightarrow>
      \<not> (r \<in> R \<and> i' = i \<and> j' = j \<and> k = 1) \<Longrightarrow> b i j t r i' j' k = t r i' j' k"
    and out: "\<not> (r \<in> R \<and> k = 1 \<and> 1 \<le> i \<and> i \<le> nx \<and> 1 \<le> j \<and> j \<le> ny)"
  shows "for_loop 1 nx (\<lambda>i. for_loop 1 ny (b i)) s r i j k = s r i j k"
proof -
  have a: "\<forall>x\<in>set (List.product [1..nx] [1..ny]). \<forall>t. (r, i, j, k) \<notin> W2 R x \<longrightarrow>
      rd4 ((case x of (i, j) \<Rightarrow> b i j) t) (r, i, j, k) = rd4 t (r, i, j, k)"
    using loop2_frame_fold [of nx ny R b, OF frame] by blast
  have b: "\<forall>x\<in>set (List.product [1..nx] [1..ny]). (r, i, j, k) \<notin> W2 R x"
    using out by (auto simp: W2_def)
  have "rd4 (fold (\<lambda>(i, j). b i j) (List.product [1..nx] [1..ny]) s) (r, i, j, k) = rd4 s (r, i, j, k)"
    by (rule fold_frame [where W = "W2 R" and rd = rd4 and c = "(r, i, j, k)"
          and b = "\<lambda>(i, j). b i j", OF a b])
  then show ?thesis by (simp add: for_loop2_fold rd4_def)
qed

lemma loop2_cell:
  fixes b :: "int \<Rightarrow> int \<Rightarrow> store \<Rightarrow> store"
  assumes frame: "\<And>i j t r i' j' k. 1 \<le> i \<Longrightarrow> i \<le> nx \<Longrightarrow> 1 \<le> j \<Longrightarrow> j \<le> ny \<Longrightarrow>
      \<not> (r \<in> R \<and> i' = i \<and> j' = j \<and> k = 1) \<Longrightarrow> b i j t r i' j' k = t r i' j' k"
    and act: "1 \<le> i" "i \<le> nx" "1 \<le> j" "j \<le> ny"
  shows "\<exists>T. (\<forall>r\<in>R. for_loop 1 nx (\<lambda>i. for_loop 1 ny (b i)) s r i j 1 = b i j T r i j 1)
    \<and> (\<forall>r i' j' k. T r i' j' k =
          (if r \<in> R \<and> k = 1 \<and> 1 \<le> i' \<and> i' \<le> nx \<and> 1 \<le> j' \<and> j' \<le> ny \<and> (i' < i \<or> i' = i \<and> j' < j)
           then for_loop 1 nx (\<lambda>i. for_loop 1 ny (b i)) s r i' j' k else s r i' j' k))"
proof -
  define xs where "xs = List.product [1..nx] [1..ny]"
  define ys where "ys = List.product [1..i - 1] [1..ny] @ map (Pair i) [1..j - 1]"
  define zs where "zs = map (Pair i) [j + 1..ny] @ List.product [i + 1..nx] [1..ny]"
  define f where "f = (\<lambda>(i, j). b i j)"
  define S' where "S' = fold f xs s"
  define T where "T = fold f ys s"
  have S': "for_loop 1 nx (\<lambda>i. for_loop 1 ny (b i)) s = S'"
    by (simp add: S'_def f_def xs_def for_loop2_fold)
  have splx: "[1..nx] = [1..i - 1] @ i # [i + 1..nx]" using act by (intro upto_split3) simp_all
  have sply: "[1..ny] = [1..j - 1] @ j # [j + 1..ny]" using act by (intro upto_split3) simp_all
  have xs: "xs = ys @ (i, j) # zs"
    unfolding xs_def ys_def zs_def
    using product_split [of "[1..i - 1]" i "[i + 1..nx]" "[1..j - 1]" j "[j + 1..ny]"]
    by (simp only: splx [symmetric] sply [symmetric])
  have dist: "distinct xs" unfolding xs_def by (simp add: distinct_product)
  have setys: "\<And>i' j'. (i', j') \<in> set ys \<longleftrightarrow>
      1 \<le> i' \<and> i' \<le> nx \<and> 1 \<le> j' \<and> j' \<le> ny \<and> (i' < i \<or> i' = i \<and> j' < j)"
    using act unfolding ys_def by auto
  have fr: "\<forall>x\<in>set xs. \<forall>t c. c \<notin> W2 R x \<longrightarrow> rd4 (f x t) c = rd4 t c"
    unfolding xs_def f_def by (rule loop2_frame_fold [of nx ny R b, OF frame])
  have dj: "\<forall>x\<in>set xs. \<forall>y\<in>set xs. \<forall>c. x \<noteq> y \<longrightarrow> c \<in> W2 R x \<longrightarrow> c \<notin> W2 R y"
    by (auto simp: W2_def)
  note cell = fold_cell [of xs "W2 R" rd4 f ys "(i, j)" zs s, OF fr dj xs dist]
  have 1: "\<forall>r\<in>R. S' r i j 1 = b i j T r i j 1"
  proof
    fix r assume "r \<in> R"
    then have "(r, i, j, 1) \<in> W2 R (i, j)" by (simp add: W2_def)
    with cell have "rd4 (fold f xs s) (r, i, j, 1) = rd4 (f (i, j) (fold f ys s)) (r, i, j, 1)"
      by blast
    then show "S' r i j 1 = b i j T r i j 1" by (simp add: rd4_def S'_def T_def f_def)
  qed
  have 2: "\<forall>r i' j' k. T r i' j' k =
          (if r \<in> R \<and> k = 1 \<and> 1 \<le> i' \<and> i' \<le> nx \<and> 1 \<le> j' \<and> j' \<le> ny \<and> (i' < i \<or> i' = i \<and> j' < j)
           then S' r i' j' k else s r i' j' k)"
  proof (intro allI)
    fix r i' j' k
    show "T r i' j' k =
          (if r \<in> R \<and> k = 1 \<and> 1 \<le> i' \<and> i' \<le> nx \<and> 1 \<le> j' \<and> j' \<le> ny \<and> (i' < i \<or> i' = i \<and> j' < j)
           then S' r i' j' k else s r i' j' k)"
    proof (cases "r \<in> R \<and> k = 1 \<and> (i', j') \<in> set ys")
      case True
      then have "(r, i', j', k) \<in> W2 R (i', j')" by (simp add: W2_def)
      with cell True have "rd4 (fold f ys s) (r, i', j', k) = rd4 (fold f xs s) (r, i', j', k)"
        by blast
      then have "T r i' j' k = S' r i' j' k" by (simp add: rd4_def S'_def T_def)
      then show ?thesis using True setys by simp
    next
      case False
      then have "\<forall>y\<in>set ys. (r, i', j', k) \<notin> W2 R y" by (auto simp: W2_def)
      with cell have "rd4 (fold f ys s) (r, i', j', k) = rd4 s (r, i', j', k)" by blast
      then have "T r i' j' k = s r i' j' k" by (simp add: rd4_def T_def)
      then show ?thesis using False setys by auto
    qed
  qed
  show ?thesis unfolding S' using 1 2 by blast
qed

section \<open>What the boundary fill leaves\<close>

lemma put_other: "\<not> (i' = i \<and> j' = j \<and> k' = k) \<Longrightarrow> put X i j k v i' j' k' = X i' j' k'"
  by (auto simp: put_apply)

lemma setBoundary_corners_apply:
  assumes "1 \<le> lastX" "1 \<le> lastY"
  shows "setBoundary_corners lastX lastY (lastX + 1) (lastY + 1) X i j k =
    (if i = lastX + 1 \<and> j = lastY + 1 \<and> k = 1
       then 0.5 * (X lastX (lastY + 1) 1 + X (lastX + 1) lastY 1)
     else if i = lastX + 1 \<and> j = 0 \<and> k = 1 then 0.5 * (X lastX 0 1 + X (lastX + 1) 1 1)
     else if i = 0 \<and> j = lastY + 1 \<and> k = 1 then 0.5 * (X 1 (lastY + 1) 1 + X 0 lastY 1)
     else if i = 0 \<and> j = 0 \<and> k = 1 then 0.5 * (X 1 0 1 + X 0 1 1)
     else X i j k)"
proof -
  define X1 where "X1 = put X 0 0 1 (0.5 * (X 1 0 1 + X 0 1 1))"
  define X2 where "X2 = put X1 0 (lastY + 1) 1 (0.5 * (X1 1 (lastY + 1) 1 + X1 0 lastY 1))"
  define X3 where "X3 = put X2 (lastX + 1) 0 1 (0.5 * (X2 lastX 0 1 + X2 (lastX + 1) 1 1))"
  define X4 where "X4 = put X3 (lastX + 1) (lastY + 1) 1
    (0.5 * (X3 lastX (lastY + 1) 1 + X3 (lastX + 1) lastY 1))"
  have c: "setBoundary_corners lastX lastY (lastX + 1) (lastY + 1) X = X4"
    by (simp add: setBoundary_corners_def Let_def X4_def X3_def X2_def X1_def)
  have r1: "X1 1 (lastY + 1) 1 = X 1 (lastY + 1) 1" "X1 0 lastY 1 = X 0 lastY 1"
    "X1 lastX 0 1 = X lastX 0 1" "X1 (lastX + 1) 1 1 = X (lastX + 1) 1 1"
    "X1 lastX (lastY + 1) 1 = X lastX (lastY + 1) 1" "X1 (lastX + 1) lastY 1 = X (lastX + 1) lastY 1"
    unfolding X1_def using assms by (simp_all add: put_other)
  have r2: "X2 lastX 0 1 = X lastX 0 1" "X2 (lastX + 1) 1 1 = X (lastX + 1) 1 1"
    "X2 lastX (lastY + 1) 1 = X lastX (lastY + 1) 1" "X2 (lastX + 1) lastY 1 = X (lastX + 1) lastY 1"
    unfolding X2_def using assms by (simp_all add: put_other r1)
  have r3: "X3 lastX (lastY + 1) 1 = X lastX (lastY + 1) 1" "X3 (lastX + 1) lastY 1 = X (lastX + 1) lastY 1"
    unfolding X3_def using assms by (simp_all add: put_other r2)
  have e2: "X2 = put X1 0 (lastY + 1) 1 (0.5 * (X 1 (lastY + 1) 1 + X 0 lastY 1))"
    by (simp only: X2_def r1)
  have e3: "X3 = put X2 (lastX + 1) 0 1 (0.5 * (X lastX 0 1 + X (lastX + 1) 1 1))"
    by (simp only: X3_def r2)
  have e4: "X4 = put X3 (lastX + 1) (lastY + 1) 1
    (0.5 * (X lastX (lastY + 1) 1 + X (lastX + 1) lastY 1))"
    by (simp only: X4_def r3)
  have "X4 i j k =
    (if i = lastX + 1 \<and> j = lastY + 1 \<and> k = 1
       then 0.5 * (X lastX (lastY + 1) 1 + X (lastX + 1) lastY 1)
     else if i = lastX + 1 \<and> j = 0 \<and> k = 1 then 0.5 * (X lastX 0 1 + X (lastX + 1) 1 1)
     else if i = 0 \<and> j = lastY + 1 \<and> k = 1 then 0.5 * (X 1 (lastY + 1) 1 + X 0 lastY 1)
     else if i = 0 \<and> j = 0 \<and> k = 1 then 0.5 * (X 1 0 1 + X 0 1 1)
     else X i j k)"
    by (simp only: e4 e3 e2 X1_def put_apply)
  then show ?thesis by (simp only: c)
qed

lemma leftRight_body:
  fixes Y :: field
  assumes "1 \<le> lastX"
  shows "(if mode = BOUNDARY_OPPOSE_X then
         (let X = put Y 0 j 1 (- Y 1 j 1) in
          put X (lastX + 1) j 1 (- X lastX j 1))
       else
         (let X = put Y 0 j 1 (Y 1 j 1) in
          put X (lastX + 1) j 1 (X lastX j 1))) i' j' k'
    = (if k' = 1 \<and> j' = j \<and> (i' = 0 \<or> i' = lastX + 1)
       then (if mode = BOUNDARY_OPPOSE_X then - Y (if i' = 0 then 1 else lastX) j 1
             else Y (if i' = 0 then 1 else lastX) j 1)
       else Y i' j' k')"
  using assms by (simp add: put_apply Let_def)

lemma setBoundary_leftRight_apply:
  assumes "1 \<le> lastX"
  shows "setBoundary_leftRight lastX lastY (lastX + 1) mode X i j k =
    (if k = 1 \<and> (i = 0 \<or> i = lastX + 1) \<and> 1 \<le> j \<and> j \<le> lastY
       then (if mode = BOUNDARY_OPPOSE_X then - X (if i = 0 then 1 else lastX) j 1
             else X (if i = 0 then 1 else lastX) j 1)
     else X i j k)"
proof -
  define V where "V = (\<lambda>i j. if mode = BOUNDARY_OPPOSE_X then - X (if i = 0 then 1 else lastX) j 1
             else X (if i = (0::int) then 1 else lastX) j (1::int))"
  define D where "D = (\<lambda>b i j k. k = (1::int) \<and> (i = (0::int) \<or> i = lastX + 1) \<and> (1::int) \<le> j \<and> j < b)"
  define P where "P = (\<lambda>b (Y::field). \<forall>i j k. Y i j k = (if D b i j k then V i j else X i j k))"
  have "P (max 1 (lastY + 1)) (setBoundary_leftRight lastX lastY (lastX + 1) mode X)"
    unfolding setBoundary_leftRight_def
  proof (rule for_loop_rule [where P = P and lo = 1 and hi = lastY])
    show "P 1 X" by (simp add: P_def D_def)
  next
    fix j :: int and Y :: field
    assume j: "1 \<le> j" "j \<le> lastY" and "P j Y"
    then have Y: "\<And>i' j' k'. Y i' j' k' = (if D j i' j' k' then V i' j' else X i' j' k')"
      by (simp add: P_def)
    have D: "\<And>i' j' k'. D (j + 1) i' j' k' \<longleftrightarrow> D j i' j' k' \<or> (k' = 1 \<and> j' = j \<and> (i' = 0 \<or> i' = lastX + 1))"
      using j unfolding D_def by auto
    have nD: "\<not> D j 1 j 1" "\<not> D j lastX j 1" "\<And>i. \<not> D j i j 1"
      using assms unfolding D_def by auto
    have Y1: "Y 1 j 1 = X 1 j 1" "Y lastX j 1 = X lastX j 1"
      using nD by (simp_all add: Y)
    show "P (j + 1) (if mode = BOUNDARY_OPPOSE_X
         then let X = put Y 0 j 1 (- Y 1 j 1) in put X (lastX + 1) j 1 (- X lastX j 1)
         else let X = put Y 0 j 1 (Y 1 j 1) in put X (lastX + 1) j 1 (X lastX j 1))"
      unfolding P_def
    proof (intro allI)
      fix i' j' k'
      show "(if mode = BOUNDARY_OPPOSE_X
         then let X = put Y 0 j 1 (- Y 1 j 1) in put X (lastX + 1) j 1 (- X lastX j 1)
         else let X = put Y 0 j 1 (Y 1 j 1) in put X (lastX + 1) j 1 (X lastX j 1)) i' j' k'
         = (if D (j + 1) i' j' k' then V i' j' else X i' j' k')"
      proof (cases "k' = 1 \<and> j' = j \<and> (i' = 0 \<or> i' = lastX + 1)")
        case True
        have eq: "D (j + 1) i' j' k' = True" using D [of i' j' k'] True by blast
        have c: "(k' = 1 \<and> j' = j \<and> (i' = 0 \<or> i' = lastX + 1)) = True" using True by simp
        have "(if mode = BOUNDARY_OPPOSE_X then - Y (if i' = 0 then 1 else lastX) j 1
             else Y (if i' = 0 then 1 else lastX) j 1) = V i' j'"
          using True Y1 by (simp add: V_def)
        then show ?thesis
          by (simp only: leftRight_body [OF assms] c if_True eq)
      next
        case False
        have eq: "D (j + 1) i' j' k' = D j i' j' k'" using D [of i' j' k'] False by blast
        have c: "(k' = 1 \<and> j' = j \<and> (i' = 0 \<or> i' = lastX + 1)) = False" using False by simp
        show ?thesis
          by (simp only: leftRight_body [OF assms] c if_False eq Y [of i' j' k'])
      qed
    qed
  qed
  then have "setBoundary_leftRight lastX lastY (lastX + 1) mode X i j k
    = (if D (max 1 (lastY + 1)) i j k then V i j else X i j k)"
    by (simp add: P_def)
  moreover have "D (max 1 (lastY + 1)) i j k \<longleftrightarrow> k = 1 \<and> (i = 0 \<or> i = lastX + 1) \<and> 1 \<le> j \<and> j \<le> lastY"
    unfolding D_def by auto
  ultimately show ?thesis by (auto simp: V_def)
qed

lemma topBottom_body:
  fixes Y :: field
  assumes "1 \<le> lastY"
  shows "(if mode = BOUNDARY_OPPOSE_Y then
         (let X = put Y i 0 1 (- Y i 1 1) in
          put X i (lastY + 1) 1 (- X i lastY 1))
       else
         (let X = put Y i 0 1 (Y i 1 1) in
          put X i (lastY + 1) 1 (X i lastY 1))) i' j' k'
    = (if k' = 1 \<and> i' = i \<and> (j' = 0 \<or> j' = lastY + 1)
       then (if mode = BOUNDARY_OPPOSE_Y then - Y i (if j' = 0 then 1 else lastY) 1
             else Y i (if j' = 0 then 1 else lastY) 1)
       else Y i' j' k')"
  using assms by (simp add: put_apply Let_def)

lemma setBoundary_topBottom_apply:
  assumes "1 \<le> lastY"
  shows "setBoundary_topBottom lastX lastY (lastY + 1) mode X i j k =
    (if k = 1 \<and> (j = 0 \<or> j = lastY + 1) \<and> 1 \<le> i \<and> i \<le> lastX
       then (if mode = BOUNDARY_OPPOSE_Y then - X i (if j = 0 then 1 else lastY) 1
             else X i (if j = 0 then 1 else lastY) 1)
     else X i j k)"
proof -
  define V where "V = (\<lambda>i j. if mode = BOUNDARY_OPPOSE_Y then - X i (if j = 0 then 1 else lastY) 1
             else X i (if j = (0::int) then 1 else lastY) (1::int))"
  define D where "D = (\<lambda>b i j k. k = (1::int) \<and> (j = (0::int) \<or> j = lastY + 1) \<and> (1::int) \<le> i \<and> i < b)"
  define P where "P = (\<lambda>b (Y::field). \<forall>i j k. Y i j k = (if D b i j k then V i j else X i j k))"
  have "P (max 1 (lastX + 1)) (setBoundary_topBottom lastX lastY (lastY + 1) mode X)"
    unfolding setBoundary_topBottom_def
  proof (rule for_loop_rule [where P = P and lo = 1 and hi = lastX])
    show "P 1 X" by (simp add: P_def D_def)
  next
    fix i :: int and Y :: field
    assume i: "1 \<le> i" "i \<le> lastX" and "P i Y"
    then have Y: "\<And>i' j' k'. Y i' j' k' = (if D i i' j' k' then V i' j' else X i' j' k')"
      by (simp add: P_def)
    have D: "\<And>i' j' k'. D (i + 1) i' j' k' \<longleftrightarrow> D i i' j' k' \<or> (k' = 1 \<and> i' = i \<and> (j' = 0 \<or> j' = lastY + 1))"
      using i unfolding D_def by auto
    have nD: "\<not> D i i 1 1" "\<not> D i i lastY 1"
      using assms unfolding D_def by auto
    have Y1: "Y i 1 1 = X i 1 1" "Y i lastY 1 = X i lastY 1"
      using nD by (simp_all add: Y)
    show "P (i + 1) (if mode = BOUNDARY_OPPOSE_Y
         then let X = put Y i 0 1 (- Y i 1 1) in put X i (lastY + 1) 1 (- X i lastY 1)
         else let X = put Y i 0 1 (Y i 1 1) in put X i (lastY + 1) 1 (X i lastY 1))"
      unfolding P_def
    proof (intro allI)
      fix i' j' k'
      show "(if mode = BOUNDARY_OPPOSE_Y
         then let X = put Y i 0 1 (- Y i 1 1) in put X i (lastY + 1) 1 (- X i lastY 1)
         else let X = put Y i 0 1 (Y i 1 1) in put X i (lastY + 1) 1 (X i lastY 1)) i' j' k'
         = (if D (i + 1) i' j' k' then V i' j' else X i' j' k')"
      proof (cases "k' = 1 \<and> i' = i \<and> (j' = 0 \<or> j' = lastY + 1)")
        case True
        have eq: "D (i + 1) i' j' k' = True" using D [of i' j' k'] True by blast
        have c: "(k' = 1 \<and> i' = i \<and> (j' = 0 \<or> j' = lastY + 1)) = True" using True by simp
        have "(if mode = BOUNDARY_OPPOSE_Y then - Y i (if j' = 0 then 1 else lastY) 1
             else Y i (if j' = 0 then 1 else lastY) 1) = V i' j'"
          using True Y1 by (simp add: V_def)
        then show ?thesis
          by (simp only: topBottom_body [OF assms] c if_True eq)
      next
        case False
        have eq: "D (i + 1) i' j' k' = D i i' j' k'" using D [of i' j' k'] False by blast
        have c: "(k' = 1 \<and> i' = i \<and> (j' = 0 \<or> j' = lastY + 1)) = False" using False by simp
        show ?thesis
          by (simp only: topBottom_body [OF assms] c if_False eq Y [of i' j' k'])
      qed
    qed
  qed
  then have "setBoundary_topBottom lastX lastY (lastY + 1) mode X i j k
    = (if D (max 1 (lastX + 1)) i j k then V i j else X i j k)"
    by (simp add: P_def)
  moreover have "D (max 1 (lastX + 1)) i j k \<longleftrightarrow> k = 1 \<and> (j = 0 \<or> j = lastY + 1) \<and> 1 \<le> i \<and> i \<le> lastX"
    unfolding D_def by auto
  ultimately show ?thesis by (auto simp: V_def)
qed

lemma setBoundary_comp:
  "setBoundary N X mode =
     setBoundary_corners (N X_DIM) (N Y_DIM) (N X_DIM + 1) (N Y_DIM + 1)
       (setBoundary_topBottom (N X_DIM) (N Y_DIM) (N Y_DIM + 1) mode
         (setBoundary_leftRight (N X_DIM) (N Y_DIM) (N X_DIM + 1) mode X))"
  by (simp add: setBoundary_def Let_def)


lemma setBoundary_active:
  assumes "1 \<le> i" "i \<le> N X_DIM" "1 \<le> j" "j \<le> N Y_DIM"
  shows "setBoundary N X mode i j k = X i j k"
proof -
  have nx: "1 \<le> N X_DIM" and ny: "1 \<le> N Y_DIM" using assms by simp_all
  show ?thesis
    unfolding setBoundary_comp
    using assms
    by (simp add: setBoundary_corners_apply [OF nx ny] setBoundary_topBottom_apply [OF ny]
        setBoundary_leftRight_apply [OF nx])
qed

lemma setBoundary_layer:
  assumes nx: "1 \<le> N X_DIM" and ny: "1 \<le> N Y_DIM" and "k \<noteq> 1"
  shows "setBoundary N X mode i j k = X i j k"
  unfolding setBoundary_comp
  using assms
  by (simp add: setBoundary_corners_apply [OF nx ny] setBoundary_topBottom_apply [OF ny]
      setBoundary_leftRight_apply [OF nx])

lemma setBoundary_left:
  assumes nx: "1 \<le> N X_DIM" and j: "1 \<le> j" "j \<le> N Y_DIM"
  shows "setBoundary N X mode 0 j 1 = (if mode = BOUNDARY_OPPOSE_X then - X 1 j 1 else X 1 j 1)"
proof -
  have ny: "1 \<le> N Y_DIM" using j by simp
  show ?thesis
    unfolding setBoundary_comp
    using assms
    by (simp add: setBoundary_corners_apply [OF nx ny] setBoundary_topBottom_apply [OF ny]
        setBoundary_leftRight_apply [OF nx])
qed

lemma setBoundary_right:
  assumes nx: "1 \<le> N X_DIM" and j: "1 \<le> j" "j \<le> N Y_DIM"
  shows "setBoundary N X mode (N X_DIM + 1) j 1 =
    (if mode = BOUNDARY_OPPOSE_X then - X (N X_DIM) j 1 else X (N X_DIM) j 1)"
proof -
  have ny: "1 \<le> N Y_DIM" using j by simp
  show ?thesis
    unfolding setBoundary_comp
    using assms
    by (simp add: setBoundary_corners_apply [OF nx ny] setBoundary_topBottom_apply [OF ny]
        setBoundary_leftRight_apply [OF nx])
qed

lemma setBoundary_top:
  assumes ny: "1 \<le> N Y_DIM" and i: "1 \<le> i" "i \<le> N X_DIM"
  shows "setBoundary N X mode i 0 1 = (if mode = BOUNDARY_OPPOSE_Y then - X i 1 1 else X i 1 1)"
proof -
  have nx: "1 \<le> N X_DIM" using i by simp
  show ?thesis
    unfolding setBoundary_comp
    using assms
    by (simp add: setBoundary_corners_apply [OF nx ny] setBoundary_topBottom_apply [OF ny]
        setBoundary_leftRight_apply [OF nx])
qed

lemma setBoundary_bottom:
  assumes ny: "1 \<le> N Y_DIM" and i: "1 \<le> i" "i \<le> N X_DIM"
  shows "setBoundary N X mode i (N Y_DIM + 1) 1 =
    (if mode = BOUNDARY_OPPOSE_Y then - X i (N Y_DIM) 1 else X i (N Y_DIM) 1)"
proof -
  have nx: "1 \<le> N X_DIM" using i by simp
  show ?thesis
    unfolding setBoundary_comp
    using assms
    by (simp add: setBoundary_corners_apply [OF nx ny] setBoundary_topBottom_apply [OF ny]
        setBoundary_leftRight_apply [OF nx])
qed

lemma setBoundary_corner_cells:
  assumes nx: "1 \<le> N X_DIM" and ny: "1 \<le> N Y_DIM"
  shows "setBoundary N X mode 0 0 1 =
      0.5 * (setBoundary N X mode 1 0 1 + setBoundary N X mode 0 1 1)"
    and "setBoundary N X mode 0 (N Y_DIM + 1) 1 =
      0.5 * (setBoundary N X mode 1 (N Y_DIM + 1) 1 + setBoundary N X mode 0 (N Y_DIM) 1)"
    and "setBoundary N X mode (N X_DIM + 1) 0 1 =
      0.5 * (setBoundary N X mode (N X_DIM) 0 1 + setBoundary N X mode (N X_DIM + 1) 1 1)"
    and "setBoundary N X mode (N X_DIM + 1) (N Y_DIM + 1) 1 =
      0.5 * (setBoundary N X mode (N X_DIM) (N Y_DIM + 1) 1 +
             setBoundary N X mode (N X_DIM + 1) (N Y_DIM) 1)"
  unfolding setBoundary_comp
  using assms
  by (simp_all add: setBoundary_corners_apply [OF nx ny])


text \<open>
  Claim C4. On a grid with active cells, after \<open>setBoundary(field, mode)\<close>: for every
  active \<open>j\<close>, \<open>field[0][j]\<close> is \<open>-field[1][j]\<close> and \<open>field[N+1][j]\<close> is \<open>-field[N][j]\<close> when the
  mode is \<open>OPPOSE_X\<close>, and \<open>field[1][j]\<close> and \<open>field[N][j]\<close> otherwise; the same holds for
  the rows \<open>0\<close> and \<open>N+1\<close> with \<open>OPPOSE_Y\<close>; and each of the four corners is the average of
  its two adjacent edge cells, whatever the mode.
\<close>

theorem setBoundary_border:
  assumes "1 \<le> N X_DIM" and "1 \<le> N Y_DIM"
  shows "(let F = setBoundary N X mode in
      (\<forall>j. 1 \<le> j \<and> j \<le> N Y_DIM \<longrightarrow>
         F 0 j 1 = (if mode = BOUNDARY_OPPOSE_X then - F 1 j 1 else F 1 j 1) \<and>
         F (N X_DIM + 1) j 1 =
           (if mode = BOUNDARY_OPPOSE_X then - F (N X_DIM) j 1 else F (N X_DIM) j 1))
    \<and> (\<forall>i. 1 \<le> i \<and> i \<le> N X_DIM \<longrightarrow>
         F i 0 1 = (if mode = BOUNDARY_OPPOSE_Y then - F i 1 1 else F i 1 1) \<and>
         F i (N Y_DIM + 1) 1 =
           (if mode = BOUNDARY_OPPOSE_Y then - F i (N Y_DIM) 1 else F i (N Y_DIM) 1))
    \<and> F 0 0 1 = (F 1 0 1 + F 0 1 1) / 2
    \<and> F 0 (N Y_DIM + 1) 1 = (F 1 (N Y_DIM + 1) 1 + F 0 (N Y_DIM) 1) / 2
    \<and> F (N X_DIM + 1) 0 1 = (F (N X_DIM) 0 1 + F (N X_DIM + 1) 1 1) / 2
    \<and> F (N X_DIM + 1) (N Y_DIM + 1) 1 =
        (F (N X_DIM) (N Y_DIM + 1) 1 + F (N X_DIM + 1) (N Y_DIM) 1) / 2)"
proof -
  have lr: "\<And>j. 1 \<le> j \<and> j \<le> N Y_DIM \<Longrightarrow>
      setBoundary N X mode 0 j 1 =
        (if mode = BOUNDARY_OPPOSE_X then - setBoundary N X mode 1 j 1
         else setBoundary N X mode 1 j 1) \<and>
      setBoundary N X mode (N X_DIM + 1) j 1 =
        (if mode = BOUNDARY_OPPOSE_X then - setBoundary N X mode (N X_DIM) j 1
         else setBoundary N X mode (N X_DIM) j 1)"
    using assms by (simp add: setBoundary_left setBoundary_right setBoundary_active)
  have tb: "\<And>i. 1 \<le> i \<and> i \<le> N X_DIM \<Longrightarrow>
      setBoundary N X mode i 0 1 =
        (if mode = BOUNDARY_OPPOSE_Y then - setBoundary N X mode i 1 1
         else setBoundary N X mode i 1 1) \<and>
      setBoundary N X mode i (N Y_DIM + 1) 1 =
        (if mode = BOUNDARY_OPPOSE_Y then - setBoundary N X mode i (N Y_DIM) 1
         else setBoundary N X mode i (N Y_DIM) 1)"
    using assms by (simp add: setBoundary_top setBoundary_bottom setBoundary_active)
  note c = setBoundary_corner_cells [OF assms, of X mode]
  show ?thesis
    unfolding Let_def
    by (intro conjI allI impI; (simp only: c)?) (use lr tb in \<open>simp_all\<close>)
qed

theorem setBoundary_border_witness:
  "1 \<le> (\<lambda>d. 2 :: int) X_DIM \<and> 1 \<le> (\<lambda>d. 2 :: int) Y_DIM
   \<and> setBoundary (\<lambda>d. 2) (\<lambda>i j k. real_of_int (i + 3 * j)) BOUNDARY_OPPOSE_X 0 1 1 = - 4
   \<and> setBoundary (\<lambda>d. 2) (\<lambda>i j k. real_of_int (i + 3 * j)) BOUNDARY_OPPOSE_X 1 0 1 = 4
   \<and> setBoundary (\<lambda>d. 2) (\<lambda>i j k. real_of_int (i + 3 * j)) BOUNDARY_OPPOSE_X 0 0 1 = 0"
proof -
  define N :: "int \<Rightarrow> int" where "N = (\<lambda>d. 2)"
  define X :: field where "X = (\<lambda>i j k. real_of_int (i + 3 * j))"
  have h: "1 \<le> N X_DIM" "1 \<le> N Y_DIM" by (simp_all add: N_def)
  note t = setBoundary_border [OF h, of X BOUNDARY_OPPOSE_X, unfolded Let_def]
  have a: "setBoundary N X BOUNDARY_OPPOSE_X 1 1 1 = 4"
    using setBoundary_active [of 1 N 1 X BOUNDARY_OPPOSE_X 1] by (simp add: N_def X_def)
  have l: "setBoundary N X BOUNDARY_OPPOSE_X 0 1 1 = - 4"
    using t a by (simp add: N_def)
  have u: "setBoundary N X BOUNDARY_OPPOSE_X 1 0 1 = 4"
    using t a by (simp add: N_def BOUNDARY_OPPOSE_X_def BOUNDARY_OPPOSE_Y_def)
  have c: "setBoundary N X BOUNDARY_OPPOSE_X 0 0 1 = 0"
    using t l u by simp
  show ?thesis using h l u c unfolding N_def X_def by simp
qed

text \<open>
  Claim C10. \<open>setBoundary(field, mode)\<close> writes border cells only: every active cell
  \<open>(i, j)\<close>, with \<open>1 \<le> i \<le> N\<close> and \<open>1 \<le> j \<le> N\<close>, keeps its value, in every layer, for
  every field and every mode.
\<close>

theorem setBoundary_keeps_active_cells:
  "\<forall>i j k. 1 \<le> i \<and> i \<le> N X_DIM \<and> 1 \<le> j \<and> j \<le> N Y_DIM \<longrightarrow>
     setBoundary N X mode i j k = X i j k"
  by (simp add: setBoundary_active)

theorem setBoundary_keeps_active_cells_witness:
  "setBoundary (\<lambda>d. 2) (\<lambda>i j k. real_of_int (i + 3 * j)) BOUNDARY_OPPOSE_Y 2 1 1 = 5"
  using setBoundary_keeps_active_cells
    [of "\<lambda>d. 2" "\<lambda>i j k. real_of_int (i + 3 * j)" BOUNDARY_OPPOSE_Y]
  by simp


section \<open>Source injection\<close>

lemma for_loop3_fold:
  "for_loop a b (\<lambda>i. for_loop c d (\<lambda>j. for_loop e f (g i j))) s =
     fold (\<lambda>(i, j, k). g i j k) (List.product [a..b] (List.product [c..d] [e..f])) s"
proof -
  have "(\<lambda>i. for_loop c d (\<lambda>j. for_loop e f (g i j))) =
      (\<lambda>i. fold (\<lambda>(j, k). g i j k) (List.product [c..d] [e..f]))"
    by (simp add: for_loop_fold fold_product fun_eq_iff)
  then have "for_loop a b (\<lambda>i. for_loop c d (\<lambda>j. for_loop e f (g i j))) s =
      fold (\<lambda>i. fold (\<lambda>(j, k). g i j k) (List.product [c..d] [e..f])) [a..b] s"
    by (simp add: for_loop_fold)
  also have "\<dots> = fold (\<lambda>(i, y). (\<lambda>(j, k). g i j k) y) (List.product [a..b] (List.product [c..d] [e..f])) s"
    by (rule fold_product)
  finally show ?thesis by simp
qed

lemma addSource_apply:
  "addSource N timeStep dest source st r i j k =
     (if r = dest \<and> 0 \<le> i \<and> i \<le> N X_DIM + 1 \<and> 0 \<le> j \<and> j \<le> N Y_DIM + 1
          \<and> 0 \<le> k \<and> k \<le> N Z_DIM + 1
      then st dest i j k + timeStep * st source i j k
      else st r i j k)"
proof -
  define xs where "xs = List.product [0..N X_DIM + 1] (List.product [0..N Y_DIM + 1] [0..N Z_DIM + 1])"
  define b where "b = (\<lambda>(i, j, k) (st::store). wr st dest i j k (st dest i j k + timeStep * st source i j k))"
  define W where "W = (\<lambda>(i::int, j::int, k::int). {(dest, i, j, k)})"
  have S': "addSource N timeStep dest source st = fold b xs st"
  proof -
    have e: "N X_DIM + 2 - 1 = N X_DIM + 1" "N Y_DIM + 2 - 1 = N Y_DIM + 1"
      "N Z_DIM + 2 - 1 = N Z_DIM + 1" by simp_all
    show ?thesis unfolding addSource_def e for_loop3_fold xs_def b_def by (rule refl)
  qed
  have fr: "\<forall>x\<in>set xs. \<forall>t c. c \<notin> W x \<longrightarrow> rd4 (b x t) c = rd4 t c"
    by (auto simp: W_def b_def rd4_def wr_apply split: if_splits)
  have dj: "\<forall>x\<in>set xs. \<forall>y\<in>set xs. \<forall>c. x \<noteq> y \<longrightarrow> c \<in> W x \<longrightarrow> c \<notin> W y"
    by (auto simp: W_def)
  have dist: "distinct xs" unfolding xs_def by (simp add: distinct_product)
  have mem: "(i, j, k) \<in> set xs \<longleftrightarrow> 0 \<le> i \<and> i \<le> N X_DIM + 1 \<and> 0 \<le> j \<and> j \<le> N Y_DIM + 1
          \<and> 0 \<le> k \<and> k \<le> N Z_DIM + 1"
    unfolding xs_def by auto
  show ?thesis
  proof (cases "r = dest \<and> (i, j, k) \<in> set xs")
    case True
    then obtain ys zs where xs: "xs = ys @ (i, j, k) # zs" by (auto dest: split_list)
    note cell = fold_cell [where rd = rd4 and W = W and b = b and s = st, OF fr dj xs dist]
    define T where "T = fold b ys st"
    have notin: "(i, j, k) \<notin> set ys" using xs dist by auto
    have "(dest, i, j, k) \<in> W (i, j, k)" by (simp add: W_def)
    with cell have "rd4 (fold b xs st) (dest, i, j, k) = rd4 (b (i, j, k) T) (dest, i, j, k)"
      unfolding T_def by blast
    then have v: "fold b xs st dest i j k = T dest i j k + timeStep * T source i j k"
      by (simp add: rd4_def b_def wr_apply)
    have "\<forall>y\<in>set ys. (dest, i, j, k) \<notin> W y" using notin by (auto simp: W_def)
    with cell have "rd4 T (dest, i, j, k) = rd4 st (dest, i, j, k)" unfolding T_def by blast
    then have d: "T dest i j k = st dest i j k" by (simp add: rd4_def)
    have "\<forall>y\<in>set ys. (source, i, j, k) \<notin> W y" using notin by (auto simp: W_def)
    with cell have "rd4 T (source, i, j, k) = rd4 st (source, i, j, k)" unfolding T_def by blast
    then have s: "T source i j k = st source i j k" by (simp add: rd4_def)
    show ?thesis using True v d s mem by (simp add: S')
  next
    case False
    have a: "\<forall>x\<in>set xs. \<forall>t. (r, i, j, k) \<notin> W x \<longrightarrow> rd4 (b x t) (r, i, j, k) = rd4 t (r, i, j, k)"
      using fr by blast
    have c: "\<forall>x\<in>set xs. (r, i, j, k) \<notin> W x" using False by (auto simp: W_def)
    have "rd4 (fold b xs st) (r, i, j, k) = rd4 st (r, i, j, k)"
      by (rule fold_frame [where W = W and rd = rd4 and c = "(r, i, j, k)" and b = b, OF a c])
    then show ?thesis using False mem by (auto simp: S' rd4_def)
  qed
qed

text \<open>
  Claim C6. \<open>addSource(dest, source)\<close> adds \<open>timeStep\<close> times the source's value to every
  cell of \<open>dest\<close>, the border cells (index \<open>0\<close> and \<open>N+1\<close> on each axis) included, and
  changes nothing else: no cell outside the allocated range and no other array.
\<close>

theorem addSource_adds_to_every_cell:
  "addSource N timeStep dest source st r i j k =
     (if r = dest \<and> 0 \<le> i \<and> i \<le> N X_DIM + 1 \<and> 0 \<le> j \<and> j \<le> N Y_DIM + 1
          \<and> 0 \<le> k \<and> k \<le> N Z_DIM + 1
      then st dest i j k + timeStep * st source i j k
      else st r i j k)"
  by (rule addSource_apply)

theorem addSource_adds_to_every_cell_witness:
  "addSource (\<lambda>d. 1) 2 0 1 (\<lambda>r i j k. if r = 0 then 1 else 3) 0 2 0 2 = 7
   \<and> addSource (\<lambda>d. 1) 2 0 1 (\<lambda>r i j k. if r = 0 then 1 else 3) 1 2 0 2 = 3
   \<and> addSource (\<lambda>d. 1) 2 0 1 (\<lambda>r i j k. if r = 0 then 1 else 3) 0 3 0 2 = 1"
  by (simp add: addSource_adds_to_every_cell)

section \<open>Diffusion\<close>

lemma for_loop_const: "for_loop 0 (int n - 1) (\<lambda>iter. f) s = (f ^^ n) s"
proof (induction n)
  case 0
  show ?case by (simp add: for_loop_empty)
next
  case (Suc n)
  have "for_loop 0 (int (Suc n) - 1) (\<lambda>iter. f) s = f (for_loop 0 (int (Suc n) - 1 - 1) (\<lambda>iter. f) s)"
    by (rule for_loop_last) simp
  then show ?case using Suc by simp
qed

lemma solver_iterations:
  "for_loop 0 (N_SOLVER_ITERS - 1) (\<lambda>iter. f) s = (f ^^ 20) s"
  using for_loop_const [of 20 f s] by (simp add: N_SOLVER_ITERS_def)

lemma diffuse_sweep_frame:
  assumes "\<not> (r = cur \<and> k = 1 \<and> 1 \<le> i \<and> i \<le> N X_DIM \<and> 1 \<le> j \<and> j \<le> N Y_DIM)"
  shows "diffuse_sweep N a cur prev st r i j k = st r i j k"
  unfolding diffuse_sweep_def
  by (rule loop2_frame [where R = "{cur}"]) (use assms in \<open>auto simp: wr_apply\<close>)

lemma diffuse_sweep_cell:
  assumes ne: "cur \<noteq> prev" and act: "1 \<le> i" "i \<le> N X_DIM" "1 \<le> j" "j \<le> N Y_DIM"
  shows "diffuse_sweep N a cur prev st cur i j 1 =
    (st prev i j 1
     + a * (diffuse_sweep N a cur prev st cur (i - 1) j 1 + st cur (i + 1) j 1 +
            diffuse_sweep N a cur prev st cur i (j - 1) 1 + st cur i (j + 1) 1))
    / (1 + 4 * a)"
proof -
  define b where "b = (\<lambda>i j (st::store). wr st cur i j 1
           ((st prev i j 1
             + a * (st cur (i - 1) j 1 + st cur (i + 1) j 1 +
                    st cur i (j - 1) 1 + st cur i (j + 1) 1))
            / (1 + 4 * a)))"
  define S' where "S' = diffuse_sweep N a cur prev st"
  have S': "S' = for_loop 1 (N X_DIM) (\<lambda>i. for_loop 1 (N Y_DIM) (b i)) st"
    by (simp add: S'_def diffuse_sweep_def b_def)
  have fr: "\<And>i j t r i' j' k. 1 \<le> i \<Longrightarrow> i \<le> N X_DIM \<Longrightarrow> 1 \<le> j \<Longrightarrow> j \<le> N Y_DIM \<Longrightarrow>
      \<not> (r \<in> {cur} \<and> i' = i \<and> j' = j \<and> k = 1) \<Longrightarrow> b i j t r i' j' k = t r i' j' k"
    by (auto simp: b_def wr_apply)
  obtain T where T1: "S' cur i j 1 = b i j T cur i j 1"
    and T2: "\<And>r i' j' k. T r i' j' k =
          (if r \<in> {cur} \<and> k = 1 \<and> 1 \<le> i' \<and> i' \<le> N X_DIM \<and> 1 \<le> j' \<and> j' \<le> N Y_DIM \<and> (i' < i \<or> i' = i \<and> j' < j)
           then S' r i' j' k else st r i' j' k)"
    using loop2_cell [of "N X_DIM" "N Y_DIM" "{cur}" b i j st, OF fr act] unfolding S' by blast
  have out: "\<And>r i' j' k. \<not> (r = cur \<and> k = 1 \<and> 1 \<le> i' \<and> i' \<le> N X_DIM \<and> 1 \<le> j' \<and> j' \<le> N Y_DIM)
      \<Longrightarrow> S' r i' j' k = st r i' j' k"
    unfolding S'_def by (rule diffuse_sweep_frame)
  have p: "T prev i j 1 = st prev i j 1" using ne by (simp add: T2)
  have l: "T cur (i - 1) j 1 = S' cur (i - 1) j 1"
    using act out [of cur 1 "i - 1" j] by (simp add: T2)
  have u: "T cur i (j - 1) 1 = S' cur i (j - 1) 1"
    using act out [of cur 1 i "j - 1"] by (simp add: T2)
  have r: "T cur (i + 1) j 1 = st cur (i + 1) j 1" by (simp add: T2)
  have d: "T cur i (j + 1) 1 = st cur i (j + 1) 1" by (simp add: T2)
  have "b i j T cur i j 1 = (T prev i j 1
             + a * (T cur (i - 1) j 1 + T cur (i + 1) j 1 +
                    T cur i (j - 1) 1 + T cur i (j + 1) 1))
            / (1 + 4 * a)"
    by (simp add: b_def wr_apply)
  then show ?thesis using T1 unfolding p l u r d S'_def by simp
qed

text \<open>
  Claim C2. \<open>diffuse(cur, prev, k, bMode)\<close> is exactly twenty rounds, whatever the values
  are (no test of convergence, no early exit), each round one sweep over the active cells
  followed by the boundary fill of \<open>cur\<close> with mode \<open>bMode\<close>. A sweep with
  \<open>a = timeStep * k * Nx * Ny\<close> leaves in every active cell
  \<open>(prev[i][j] + a * (cur[i-1][j] + cur[i+1][j] + cur[i][j-1] + cur[i][j+1])) / (1 + 4a)\<close>,
  where the neighbours \<open>(i-1, j)\<close> and \<open>(i, j-1)\<close> are read as the same sweep has left them
  and the neighbours \<open>(i+1, j)\<close> and \<open>(i, j+1)\<close> as they were before it (Gauss-Seidel); the
  sweep changes nothing else. \<open>cur\<close> and \<open>prev\<close> are different arrays, as in every call of
  the source, and \<open>1 + 4a\<close> is not zero (a division by zero has no finite result).
\<close>

theorem diffuse_twenty_sweeps:
  assumes "cur \<noteq> prev"
    and "1 + 4 * (timeStep * k * real_of_int (N X_DIM) * real_of_int (N Y_DIM)) \<noteq> 0"
  shows "diffuse N timeStep cur prev k bMode st =
      ((\<lambda>s. (diffuse_sweep N (timeStep * k * real_of_int (N X_DIM) * real_of_int (N Y_DIM)) cur prev s)
             (cur := setBoundary N
                (diffuse_sweep N (timeStep * k * real_of_int (N X_DIM) * real_of_int (N Y_DIM)) cur prev s cur)
                bMode)) ^^ 20) st
    \<and> (\<forall>a s i j. 1 \<le> i \<and> i \<le> N X_DIM \<and> 1 \<le> j \<and> j \<le> N Y_DIM \<longrightarrow>
          diffuse_sweep N a cur prev s cur i j 1 =
            (s prev i j 1
             + a * (diffuse_sweep N a cur prev s cur (i - 1) j 1 + s cur (i + 1) j 1 +
                    diffuse_sweep N a cur prev s cur i (j - 1) 1 + s cur i (j + 1) 1))
            / (1 + 4 * a))
    \<and> (\<forall>a s r i j l. \<not> (r = cur \<and> l = 1 \<and> 1 \<le> i \<and> i \<le> N X_DIM \<and> 1 \<le> j \<and> j \<le> N Y_DIM) \<longrightarrow>
          diffuse_sweep N a cur prev s r i j l = s r i j l)"
proof (intro conjI allI impI)
  show "diffuse N timeStep cur prev k bMode st =
      ((\<lambda>s. (diffuse_sweep N (timeStep * k * real_of_int (N X_DIM) * real_of_int (N Y_DIM)) cur prev s)
             (cur := setBoundary N
                (diffuse_sweep N (timeStep * k * real_of_int (N X_DIM) * real_of_int (N Y_DIM)) cur prev s cur)
                bMode)) ^^ 20) st"
    unfolding diffuse_def Let_def by (rule solver_iterations)
next
  fix a :: real and s :: store and i j :: int
  assume "1 \<le> i \<and> i \<le> N X_DIM \<and> 1 \<le> j \<and> j \<le> N Y_DIM"
  then show "diffuse_sweep N a cur prev s cur i j 1 =
            (s prev i j 1
             + a * (diffuse_sweep N a cur prev s cur (i - 1) j 1 + s cur (i + 1) j 1 +
                    diffuse_sweep N a cur prev s cur i (j - 1) 1 + s cur i (j + 1) 1))
            / (1 + 4 * a)"
    using assms(1) by (intro diffuse_sweep_cell) simp_all
next
  fix a :: real and s :: store and r :: ref and i j l :: int
  assume "\<not> (r = cur \<and> l = 1 \<and> 1 \<le> i \<and> i \<le> N X_DIM \<and> 1 \<le> j \<and> j \<le> N Y_DIM)"
  then show "diffuse_sweep N a cur prev s r i j l = s r i j l"
    by (rule diffuse_sweep_frame)
qed

theorem diffuse_twenty_sweeps_witness:
  "(0::nat) \<noteq> 1
   \<and> 1 + 4 * (1 * 1 * real_of_int ((\<lambda>d. 1) X_DIM) * real_of_int ((\<lambda>d. 1) Y_DIM)) \<noteq> (0::real)
   \<and> diffuse_sweep (\<lambda>d. 1) 1 0 1 (\<lambda>r i j k. if r = 1 then 5 else 0) 0 1 1 1 = 1
   \<and> diffuse_sweep (\<lambda>d. 1) 1 0 1 (\<lambda>r i j k. if r = 1 then 5 else 0) 0 0 1 1 = 0"
proof -
  define s :: store where "s = (\<lambda>r i j k. if r = 1 then 5 else 0)"
  have h1: "(0::nat) \<noteq> 1" by simp
  have h2: "1 + 4 * (1 * 1 * real_of_int ((\<lambda>d. 1) X_DIM) * real_of_int ((\<lambda>d. 1) Y_DIM)) \<noteq> (0::real)"
    by simp
  note t = diffuse_twenty_sweeps [of 0 1 1 1 "\<lambda>d. 1" 0 s, OF h1 h2]
  have cell: "diffuse_sweep (\<lambda>d. 1) 1 0 1 s 0 1 1 1 =
      (s 1 1 1 1 + 1 * (diffuse_sweep (\<lambda>d. 1) 1 0 1 s 0 (1 - 1) 1 1 + s 0 (1 + 1) 1 1 +
         diffuse_sweep (\<lambda>d. 1) 1 0 1 s 0 1 (1 - 1) 1 + s 0 1 (1 + 1) 1)) / (1 + 4 * 1)"
    using t by simp
  have f1: "diffuse_sweep (\<lambda>d. 1) 1 0 1 s 0 0 1 1 = s 0 0 1 1" using t by simp
  have f2: "diffuse_sweep (\<lambda>d. 1) 1 0 1 s 0 1 0 1 = s 0 1 0 1" using t by simp
  have "diffuse_sweep (\<lambda>d. 1) 1 0 1 s 0 1 1 1 = 1"
    using cell f1 f2 by (simp add: s_def)
  then show ?thesis using h1 h2 f1 unfolding s_def by simp
qed

section \<open>Advection\<close>

lemma advect_coord_Num:
  "advect_coord n d i (Num v) =
     Num (clamp 0.5 (real_of_int n + 0.5) (real_of_int i - real_of_int d * v))"
  by (auto simp: advect_coord_def Let_def clamp_def min_def max_def)

lemma backtracked_bounds:
  assumes "0 \<le> n"
  shows "0.5 \<le> backtracked n i v" and "backtracked n i v \<le> real_of_int n + 0.5"
  using assms by (simp_all add: backtracked_def clamp_def min_def max_def)

lemma backtracked_floor:
  assumes "0 \<le> n"
  shows "0 \<le> \<lfloor>backtracked n i v\<rfloor>" and "\<lfloor>backtracked n i v\<rfloor> \<le> n"
proof -
  have "0 \<le> backtracked n i v" using backtracked_bounds(1) [OF assms, of i v] by simp
  then show "0 \<le> \<lfloor>backtracked n i v\<rfloor>" by simp
  have "backtracked n i v < real_of_int (n + 1)"
    using backtracked_bounds(2) [OF assms, of i v] by simp
  then have "\<lfloor>backtracked n i v\<rfloor> < n + 1" by (simp only: floor_less_iff)
  then show "\<lfloor>backtracked n i v\<rfloor> \<le> n" by simp
qed

lemma advect_cell_js_Num:
  "advect_cell_js N dX dY cur prev i j (Num vx) (Num vy) st =
     (let x = clamp 0.5 (real_of_int (N X_DIM) + 0.5) (real_of_int i - real_of_int dX * vx);
          y = clamp 0.5 (real_of_int (N Y_DIM) + 0.5) (real_of_int j - real_of_int dY * vy)
      in if in_field N \<lfloor>x\<rfloor> \<lfloor>y\<rfloor> \<and> in_field N \<lfloor>x\<rfloor> (\<lfloor>y\<rfloor> + 1)
            \<and> in_field N (\<lfloor>x\<rfloor> + 1) \<lfloor>y\<rfloor> \<and> in_field N (\<lfloor>x\<rfloor> + 1) (\<lfloor>y\<rfloor> + 1)
         then Some (wr st cur i j 1 (bilinear (st prev) x y))
         else None)"
  unfolding advect_cell_js_def advect_coord_Num
  by (simp add: Let_def bilinear_def)

lemma advect_cell_some:
  assumes "0 \<le> N X_DIM" and "0 \<le> N Y_DIM"
  shows "advect_cell N (N X_DIM) (N Y_DIM) cur prev vel i j st =
     Some (wr st cur i j 1
       (bilinear (st prev) (backtracked (N X_DIM) i (st (vel X_DIM) i j 1))
                           (backtracked (N Y_DIM) j (st (vel Y_DIM) i j 1))))"
proof -
  note fx = backtracked_floor [OF assms(1), of i "st (vel X_DIM) i j 1"]
  note fy = backtracked_floor [OF assms(2), of j "st (vel Y_DIM) i j 1"]
  show ?thesis
    unfolding advect_cell_def advect_cell_js_Num Let_def backtracked_def [symmetric]
    using fx fy by (simp add: in_field_def)
qed

lemma fold_option_total:
  assumes "\<forall>x\<in>set xs. \<forall>t. f x t = Some (g x t)"
  shows "fold (\<lambda>x acc. Option.bind acc (f x)) xs (Some s) = Some (fold g xs s)"
  using assms by (induction xs arbitrary: s) simp_all

lemma for_loop2_option_total:
  assumes "\<And>i j t. a \<le> i \<Longrightarrow> i \<le> b \<Longrightarrow> c \<le> j \<Longrightarrow> j \<le> d \<Longrightarrow> f i j t = Some (g i j t)"
  shows "for_loop a b (\<lambda>i. for_loop c d (\<lambda>j acc. Option.bind acc (f i j))) (Some s) =
     Some (for_loop a b (\<lambda>i. for_loop c d (g i)) s)"
proof -
  have e: "(\<lambda>(i, j) acc. Option.bind acc (f i j)) =
      (\<lambda>x acc. Option.bind acc ((\<lambda>(i, j). f i j) x))"
    by (simp add: fun_eq_iff)
  have t: "\<forall>x\<in>set (List.product [a..b] [c..d]). \<forall>t. (\<lambda>(i, j). f i j) x t = Some ((\<lambda>(i, j). g i j) x t)"
    using assms by auto
  show ?thesis
    unfolding for_loop2_fold e
    by (rule fold_option_total [OF t])
qed

lemma advect_loops:
  "advect N cur prev vel bMode st =
     Some ((\<lambda>mid. mid(cur := setBoundary N (mid cur) bMode))
       (for_loop 1 (N X_DIM) (\<lambda>i. for_loop 1 (N Y_DIM) (\<lambda>j t.
          wr t cur i j 1
            (bilinear (t prev) (backtracked (N X_DIM) i (t (vel X_DIM) i j 1))
                               (backtracked (N Y_DIM) j (t (vel Y_DIM) i j 1))))) st))"
proof -
  have "for_loop 1 (N X_DIM) (\<lambda>i. for_loop 1 (N Y_DIM) (\<lambda>j acc.
          Option.bind acc (advect_cell N (N X_DIM) (N Y_DIM) cur prev vel i j))) (Some st) =
     Some (for_loop 1 (N X_DIM) (\<lambda>i. for_loop 1 (N Y_DIM) (\<lambda>j t.
          wr t cur i j 1
            (bilinear (t prev) (backtracked (N X_DIM) i (t (vel X_DIM) i j 1))
                               (backtracked (N Y_DIM) j (t (vel Y_DIM) i j 1))))) st)"
    by (rule for_loop2_option_total) (simp add: advect_cell_some)
  then show ?thesis by (simp add: advect_def Let_def)
qed

lemma advect_mid_frame:
  assumes "\<not> (r = cur \<and> k = 1 \<and> 1 \<le> i \<and> i \<le> N X_DIM \<and> 1 \<le> j \<and> j \<le> N Y_DIM)"
  shows "for_loop 1 (N X_DIM) (\<lambda>i. for_loop 1 (N Y_DIM) (\<lambda>j t.
          wr t cur i j 1
            (bilinear (t prev) (backtracked (N X_DIM) i (t (vel X_DIM) i j 1))
                               (backtracked (N Y_DIM) j (t (vel Y_DIM) i j 1))))) st r i j k
     = st r i j k"
  by (rule loop2_frame [where R = "{cur}"]) (use assms in \<open>auto simp: wr_apply\<close>)

lemma advect_mid_cell:
  assumes ne: "cur \<noteq> prev" and act: "1 \<le> i" "i \<le> N X_DIM" "1 \<le> j" "j \<le> N Y_DIM"
  shows "for_loop 1 (N X_DIM) (\<lambda>i. for_loop 1 (N Y_DIM) (\<lambda>j t.
          wr t cur i j 1
            (bilinear (t prev) (backtracked (N X_DIM) i (t (vel X_DIM) i j 1))
                               (backtracked (N Y_DIM) j (t (vel Y_DIM) i j 1))))) st cur i j 1
     = bilinear (st prev) (backtracked (N X_DIM) i (st (vel X_DIM) i j 1))
                          (backtracked (N Y_DIM) j (st (vel Y_DIM) i j 1))"
proof -
  define b where "b = (\<lambda>i j (t::store). wr t cur i j 1
            (bilinear (t prev) (backtracked (N X_DIM) i (t (vel X_DIM) i j 1))
                               (backtracked (N Y_DIM) j (t (vel Y_DIM) i j 1))))"
  have fr: "\<And>i j t r i' j' k. 1 \<le> i \<Longrightarrow> i \<le> N X_DIM \<Longrightarrow> 1 \<le> j \<Longrightarrow> j \<le> N Y_DIM \<Longrightarrow>
      \<not> (r \<in> {cur} \<and> i' = i \<and> j' = j \<and> k = 1) \<Longrightarrow> b i j t r i' j' k = t r i' j' k"
    by (auto simp: b_def wr_apply)
  obtain T where T1: "for_loop 1 (N X_DIM) (\<lambda>i. for_loop 1 (N Y_DIM) (b i)) st cur i j 1 = b i j T cur i j 1"
    and T2: "\<And>r i' j' k. T r i' j' k =
          (if r \<in> {cur} \<and> k = 1 \<and> 1 \<le> i' \<and> i' \<le> N X_DIM \<and> 1 \<le> j' \<and> j' \<le> N Y_DIM \<and> (i' < i \<or> i' = i \<and> j' < j)
           then for_loop 1 (N X_DIM) (\<lambda>i. for_loop 1 (N Y_DIM) (b i)) st r i' j' k else st r i' j' k)"
    using loop2_cell [of "N X_DIM" "N Y_DIM" "{cur}" b i j st, OF fr act] by blast
  have p: "T prev = st prev" using ne by (simp add: T2 fun_eq_iff)
  have x: "T (vel X_DIM) i j 1 = st (vel X_DIM) i j 1" by (simp add: T2)
  have y: "T (vel Y_DIM) i j 1 = st (vel Y_DIM) i j 1" by (simp add: T2)
  have "b i j T cur i j 1 = bilinear (T prev) (backtracked (N X_DIM) i (T (vel X_DIM) i j 1))
                               (backtracked (N Y_DIM) j (T (vel Y_DIM) i j 1))"
    by (simp add: b_def wr_apply)
  then show ?thesis using T1 unfolding p x y b_def by simp
qed

text \<open>
  Claim C3. \<open>advect(cur, prev, vel, bMode)\<close>, with \<open>cur\<close> and \<open>prev\<close> different arrays, writes
  into every active cell \<open>(i, j)\<close> of \<open>cur\<close> the bilinear interpolation of \<open>prev\<close> at the
  position \<open>(i - Nx * velX[i][j], j - Ny * velY[i][j])\<close>, each coordinate clamped into
  \<open>[0.5, N + 0.5]\<close> first and the lower sample index its floor, changes nothing else, and
  then applies the boundary fill with mode \<open>bMode\<close> to \<open>cur\<close>. The velocity is read as it
  was before the call, also where \<open>cur\<close> is one of the components of \<open>vel\<close>.
\<close>

theorem advect_interpolates_backtracked:
  assumes "cur \<noteq> prev"
  shows "\<exists>mid. advect N cur prev vel bMode st = Some (mid(cur := setBoundary N (mid cur) bMode))
    \<and> (\<forall>i j. 1 \<le> i \<and> i \<le> N X_DIM \<and> 1 \<le> j \<and> j \<le> N Y_DIM \<longrightarrow>
          mid cur i j 1 =
            bilinear (st prev) (backtracked (N X_DIM) i (st (vel X_DIM) i j 1))
                               (backtracked (N Y_DIM) j (st (vel Y_DIM) i j 1)))
    \<and> (\<forall>r i j k. \<not> (r = cur \<and> k = 1 \<and> 1 \<le> i \<and> i \<le> N X_DIM \<and> 1 \<le> j \<and> j \<le> N Y_DIM) \<longrightarrow>
          mid r i j k = st r i j k)"
proof (intro exI conjI allI impI)
  show "advect N cur prev vel bMode st =
     Some ((for_loop 1 (N X_DIM) (\<lambda>i. for_loop 1 (N Y_DIM) (\<lambda>j t.
          wr t cur i j 1
            (bilinear (t prev) (backtracked (N X_DIM) i (t (vel X_DIM) i j 1))
                               (backtracked (N Y_DIM) j (t (vel Y_DIM) i j 1))))) st)
       (cur := setBoundary N ((for_loop 1 (N X_DIM) (\<lambda>i. for_loop 1 (N Y_DIM) (\<lambda>j t.
          wr t cur i j 1
            (bilinear (t prev) (backtracked (N X_DIM) i (t (vel X_DIM) i j 1))
                               (backtracked (N Y_DIM) j (t (vel Y_DIM) i j 1))))) st) cur) bMode))"
    by (rule advect_loops)
next
  fix i j :: int
  assume "1 \<le> i \<and> i \<le> N X_DIM \<and> 1 \<le> j \<and> j \<le> N Y_DIM"
  then show "for_loop 1 (N X_DIM) (\<lambda>i. for_loop 1 (N Y_DIM) (\<lambda>j t.
          wr t cur i j 1
            (bilinear (t prev) (backtracked (N X_DIM) i (t (vel X_DIM) i j 1))
                               (backtracked (N Y_DIM) j (t (vel Y_DIM) i j 1))))) st cur i j 1
     = bilinear (st prev) (backtracked (N X_DIM) i (st (vel X_DIM) i j 1))
                          (backtracked (N Y_DIM) j (st (vel Y_DIM) i j 1))"
    using assms by (intro advect_mid_cell) simp_all
next
  fix r :: ref and i j k :: int
  assume "\<not> (r = cur \<and> k = 1 \<and> 1 \<le> i \<and> i \<le> N X_DIM \<and> 1 \<le> j \<and> j \<le> N Y_DIM)"
  then show "for_loop 1 (N X_DIM) (\<lambda>i. for_loop 1 (N Y_DIM) (\<lambda>j t.
          wr t cur i j 1
            (bilinear (t prev) (backtracked (N X_DIM) i (t (vel X_DIM) i j 1))
                               (backtracked (N Y_DIM) j (t (vel Y_DIM) i j 1))))) st r i j k
     = st r i j k"
    by (rule advect_mid_frame)
qed

theorem advect_interpolates_backtracked_witness:
  "(0::nat) \<noteq> 1 \<and>
   (\<exists>st'. advect (\<lambda>d. 2) 0 1 (\<lambda>d. 2) 0
            (\<lambda>r i j k. if r = 1 then real_of_int i else if r = 2 then 1 / 4 else 0) = Some st'
          \<and> st' 0 1 1 1 = 1 / 2)"
proof -
  define N :: "int \<Rightarrow> int" where "N = (\<lambda>d. 2)"
  define vel :: "int \<Rightarrow> ref" where "vel = (\<lambda>d. 2)"
  define st :: store where
    "st = (\<lambda>r i j k. if r = 1 then real_of_int i else if r = 2 then 1 / 4 else 0)"
  have h: "(0::nat) \<noteq> 1" by simp
  obtain mid where a: "advect N 0 1 vel 0 st = Some (mid(0 := setBoundary N (mid 0) 0))"
    and c: "\<forall>i j. 1 \<le> i \<and> i \<le> N X_DIM \<and> 1 \<le> j \<and> j \<le> N Y_DIM \<longrightarrow>
          mid 0 i j 1 =
            bilinear (st 1) (backtracked (N X_DIM) i (st (vel X_DIM) i j 1))
                            (backtracked (N Y_DIM) j (st (vel Y_DIM) i j 1))"
    using advect_interpolates_backtracked [OF h, of N vel 0 st] by blast
  have b: "backtracked 2 1 (1 / 4) = 1 / 2"
    by (simp add: backtracked_def clamp_def)
  have "mid 0 1 1 1 = bilinear (st 1) (backtracked 2 1 (1 / 4)) (backtracked 2 1 (1 / 4))"
    using c [rule_format, of 1 1] by (simp add: N_def st_def vel_def)
  also have "\<dots> = bilinear (st 1) (1 / 2) (1 / 2)" by (simp only: b)
  also have "\<dots> = 1 / 2" by (simp add: bilinear_def st_def)
  finally have m: "mid 0 1 1 1 = 1 / 2" .
  have "(mid(0 := setBoundary N (mid 0) 0)) 0 1 1 1 = 1 / 2"
    using setBoundary_active [of 1 N 1 "mid 0" 0 1] m by (simp add: N_def)
  then show ?thesis using a h unfolding N_def vel_def st_def by blast
qed

lemma advect_some_on_numbers: "advect N cur prev vel bMode st \<noteq> None"
  by (simp add: advect_loops)

lemma advect_coord_NaN: "advect_coord n d i NaN = NaN"
  by (simp add: advect_coord_def)

lemma advect_cell_js_NaN:
  "advect_cell_js N dX dY cur prev i j NaN vy st = None"
  "advect_cell_js N dX dY cur prev i j vx NaN st = None"
  by (simp_all add: advect_cell_js_def advect_coord_NaN split: js_number.splits)

text \<open>
  What the clamps do achieve: for every velocity but NaN, the infinities included, the
  clamped coordinate of an active cell is a finite number of \<open>[0.5, N + 0.5]\<close>, and the
  update of the cell reads inside the field.
\<close>

lemma advect_coord_clamped:
  assumes "v \<noteq> NaN" and "1 \<le> d" and "0 \<le> n"
  shows "\<exists>x. advect_coord n d i v = Num x \<and> 0.5 \<le> x \<and> x \<le> real_of_int n + 0.5"
proof (cases v)
  case (Num r)
  show ?thesis
    using assms(3) unfolding Num advect_coord_Num
    by (simp add: clamp_def min_def max_def)
next
  case PosInf
  have "advect_coord n d i PosInf = Num 0.5"
    using assms(2,3) by (simp add: advect_coord_def)
  moreover have "(0.5::real) \<le> 0.5 \<and> (0.5::real) \<le> real_of_int n + 0.5"
    using assms(3) by simp
  ultimately show ?thesis unfolding PosInf by blast
next
  case NegInf
  have "advect_coord n d i NegInf = Num (real_of_int n + 0.5)"
    using assms(2,3) by (simp add: advect_coord_def)
  moreover have "(0.5::real) \<le> real_of_int n + 0.5
      \<and> real_of_int n + 0.5 \<le> real_of_int n + 0.5"
    using assms(3) by simp
  ultimately show ?thesis unfolding NegInf by blast
next
  case NaN
  then show ?thesis using assms(1) by simp
qed

lemma advect_cell_js_in_range:
  assumes "vx \<noteq> NaN" and "vy \<noteq> NaN" and "1 \<le> N X_DIM" and "1 \<le> N Y_DIM"
  shows "advect_cell_js N (N X_DIM) (N Y_DIM) cur prev i j vx vy st \<noteq> None"
proof -
  obtain x where x: "advect_coord (N X_DIM) (N X_DIM) i vx = Num x"
    and xb: "0.5 \<le> x" "x \<le> real_of_int (N X_DIM) + 0.5"
    using advect_coord_clamped [OF assms(1,3), of "N X_DIM" i] assms(3) by auto
  obtain y where y: "advect_coord (N Y_DIM) (N Y_DIM) j vy = Num y"
    and yb: "0.5 \<le> y" "y \<le> real_of_int (N Y_DIM) + 0.5"
    using advect_coord_clamped [OF assms(2,4), of "N Y_DIM" j] assms(4) by auto
  have "0 \<le> x" using xb by simp
  then have x0: "0 \<le> \<lfloor>x\<rfloor>" by simp
  have "x < real_of_int (N X_DIM + 1)" using xb by simp
  then have "\<lfloor>x\<rfloor> < N X_DIM + 1" by (simp only: floor_less_iff)
  then have x1: "\<lfloor>x\<rfloor> \<le> N X_DIM" by simp
  have "0 \<le> y" using yb by simp
  then have y0: "0 \<le> \<lfloor>y\<rfloor>" by simp
  have "y < real_of_int (N Y_DIM + 1)" using yb by simp
  then have "\<lfloor>y\<rfloor> < N Y_DIM + 1" by (simp only: floor_less_iff)
  then have y1: "\<lfloor>y\<rfloor> \<le> N Y_DIM" by simp
  show ?thesis
    unfolding advect_cell_js_def x y
    using x0 x1 y0 y1 by (simp add: Let_def in_field_def)
qed

text \<open>
  Claim C8 says that for every velocity field the sample indices of \<open>advect\<close> lie between
  \<open>0\<close> and \<open>N + 1\<close>, so that no read outside the field is possible. The clamps of lines 72
  to 75 miss one value: with a velocity that is NaN the coordinate is NaN, both
  comparisons are false, the coordinate stays NaN, its floor is no index, and the read of
  \<^verbatim>\<open>prev\<close> at line 91 throws. Here it is at the active cell \<open>(1, 1)\<close> of a grid of two cells
  per axis, with an x-velocity of NaN and a y-velocity of zero.
\<close>

theorem advect_NaN_velocity_throws:
  "advect_coord 2 2 1 NaN = NaN
   \<and> advect_cell_js (\<lambda>d. 2) 2 2 0 1 1 1 NaN (Num 0) (\<lambda>r i j k. 0) = None"
  by (simp add: advect_coord_NaN advect_cell_js_NaN)





section \<open>Projection\<close>

lemma project_div_frame:
  assumes "\<not> ((r = dv \<or> r = p) \<and> k = 1 \<and> 1 \<le> i \<and> i \<le> N X_DIM \<and> 1 \<le> j \<and> j \<le> N Y_DIM)"
  shows "project_div N Lx Ly vel p dv st r i j k = st r i j k"
  unfolding project_div_def
  by (rule loop2_frame [where R = "{dv, p}"]) (use assms in \<open>auto simp: wr_apply Let_def\<close>)

lemma project_div_cell:
  assumes ne: "p \<noteq> dv" "vel X_DIM \<noteq> p" "vel X_DIM \<noteq> dv" "vel Y_DIM \<noteq> p" "vel Y_DIM \<noteq> dv"
    and act: "1 \<le> i" "i \<le> N X_DIM" "1 \<le> j" "j \<le> N Y_DIM"
  shows "project_div N Lx Ly vel p dv st dv i j 1 =
      - 0.5 * (Lx * (st (vel X_DIM) (i + 1) j 1 - st (vel X_DIM) (i - 1) j 1) +
               Ly * (st (vel Y_DIM) i (j + 1) 1 - st (vel Y_DIM) i (j - 1) 1))"
    and "project_div N Lx Ly vel p dv st p i j 1 = 0"
proof -
  define b where "b = (\<lambda>i j (st::store).
         let st = wr st dv i j 1
               (- 0.5 * (Lx * (st (vel X_DIM) (i + 1) j 1 - st (vel X_DIM) (i - 1) j 1) +
                         Ly * (st (vel Y_DIM) i (j + 1) 1 - st (vel Y_DIM) i (j - 1) 1)))
         in wr st p i j 1 0)"
  have S': "project_div N Lx Ly vel p dv st = for_loop 1 (N X_DIM) (\<lambda>i. for_loop 1 (N Y_DIM) (b i)) st"
    by (simp add: project_div_def b_def)
  have fr: "\<And>i j t r i' j' k. 1 \<le> i \<Longrightarrow> i \<le> N X_DIM \<Longrightarrow> 1 \<le> j \<Longrightarrow> j \<le> N Y_DIM \<Longrightarrow>
      \<not> (r \<in> {dv, p} \<and> i' = i \<and> j' = j \<and> k = 1) \<Longrightarrow> b i j t r i' j' k = t r i' j' k"
    by (auto simp: b_def wr_apply Let_def)
  obtain T where T1: "\<forall>r\<in>{dv, p}. project_div N Lx Ly vel p dv st r i j 1 = b i j T r i j 1"
    and T2: "\<And>r i' j' k. T r i' j' k =
          (if r \<in> {dv, p} \<and> k = 1 \<and> 1 \<le> i' \<and> i' \<le> N X_DIM \<and> 1 \<le> j' \<and> j' \<le> N Y_DIM \<and> (i' < i \<or> i' = i \<and> j' < j)
           then project_div N Lx Ly vel p dv st r i' j' k else st r i' j' k)"
    using loop2_cell [of "N X_DIM" "N Y_DIM" "{dv, p}" b i j st, OF fr act] unfolding S' by blast
  have vx: "\<And>i' j'. T (vel X_DIM) i' j' 1 = st (vel X_DIM) i' j' 1" using ne by (simp add: T2)
  have vy: "\<And>i' j'. T (vel Y_DIM) i' j' 1 = st (vel Y_DIM) i' j' 1" using ne by (simp add: T2)
  have "b i j T dv i j 1 = - 0.5 * (Lx * (T (vel X_DIM) (i + 1) j 1 - T (vel X_DIM) (i - 1) j 1) +
               Ly * (T (vel Y_DIM) i (j + 1) 1 - T (vel Y_DIM) i (j - 1) 1))"
    using ne by (simp add: b_def wr_apply Let_def)
  then show "project_div N Lx Ly vel p dv st dv i j 1 =
      - 0.5 * (Lx * (st (vel X_DIM) (i + 1) j 1 - st (vel X_DIM) (i - 1) j 1) +
               Ly * (st (vel Y_DIM) i (j + 1) 1 - st (vel Y_DIM) i (j - 1) 1))"
    using T1 unfolding vx vy by simp
  have "b i j T p i j 1 = 0" by (simp add: b_def wr_apply Let_def)
  then show "project_div N Lx Ly vel p dv st p i j 1 = 0" using T1 by simp
qed

lemma project_sweep_frame:
  assumes "\<not> (r = p \<and> k = 1 \<and> 1 \<le> i \<and> i \<le> N X_DIM \<and> 1 \<le> j \<and> j \<le> N Y_DIM)"
  shows "project_sweep N p dv st r i j k = st r i j k"
  unfolding project_sweep_def
  by (rule loop2_frame [where R = "{p}"]) (use assms in \<open>auto simp: wr_apply\<close>)

lemma project_sweep_cell:
  assumes ne: "p \<noteq> dv" and act: "1 \<le> i" "i \<le> N X_DIM" "1 \<le> j" "j \<le> N Y_DIM"
  shows "project_sweep N p dv st p i j 1 =
    (st dv i j 1
     + project_sweep N p dv st p (i - 1) j 1 + st p (i + 1) j 1
     + project_sweep N p dv st p i (j - 1) 1 + st p i (j + 1) 1)
    / 4"
proof -
  define b where "b = (\<lambda>i j (st::store). wr st p i j 1
           ((st dv i j 1
             + st p (i - 1) j 1 + st p (i + 1) j 1
             + st p i (j - 1) 1 + st p i (j + 1) 1)
            / 4))"
  define S' where "S' = project_sweep N p dv st"
  have S': "S' = for_loop 1 (N X_DIM) (\<lambda>i. for_loop 1 (N Y_DIM) (b i)) st"
    by (simp add: S'_def project_sweep_def b_def)
  have fr: "\<And>i j t r i' j' k. 1 \<le> i \<Longrightarrow> i \<le> N X_DIM \<Longrightarrow> 1 \<le> j \<Longrightarrow> j \<le> N Y_DIM \<Longrightarrow>
      \<not> (r \<in> {p} \<and> i' = i \<and> j' = j \<and> k = 1) \<Longrightarrow> b i j t r i' j' k = t r i' j' k"
    by (auto simp: b_def wr_apply)
  obtain T where T1: "S' p i j 1 = b i j T p i j 1"
    and T2: "\<And>r i' j' k. T r i' j' k =
          (if r \<in> {p} \<and> k = 1 \<and> 1 \<le> i' \<and> i' \<le> N X_DIM \<and> 1 \<le> j' \<and> j' \<le> N Y_DIM \<and> (i' < i \<or> i' = i \<and> j' < j)
           then S' r i' j' k else st r i' j' k)"
    using loop2_cell [of "N X_DIM" "N Y_DIM" "{p}" b i j st, OF fr act] unfolding S' by blast
  have out: "\<And>r i' j' k. \<not> (r = p \<and> k = 1 \<and> 1 \<le> i' \<and> i' \<le> N X_DIM \<and> 1 \<le> j' \<and> j' \<le> N Y_DIM)
      \<Longrightarrow> S' r i' j' k = st r i' j' k"
    unfolding S'_def by (rule project_sweep_frame)
  have q: "T dv i j 1 = st dv i j 1" using ne by (simp add: T2)
  have l: "T p (i - 1) j 1 = S' p (i - 1) j 1"
    using act out [of p 1 "i - 1" j] by (simp add: T2)
  have u: "T p i (j - 1) 1 = S' p i (j - 1) 1"
    using act out [of p 1 i "j - 1"] by (simp add: T2)
  have r: "T p (i + 1) j 1 = st p (i + 1) j 1" by (simp add: T2)
  have d: "T p i (j + 1) 1 = st p i (j + 1) 1" by (simp add: T2)
  have "b i j T p i j 1 = (T dv i j 1
             + T p (i - 1) j 1 + T p (i + 1) j 1
             + T p i (j - 1) 1 + T p i (j + 1) 1)
            / 4"
    by (simp add: b_def wr_apply)
  then show ?thesis using T1 unfolding q l u r d S'_def by simp
qed

lemma project_grad_frame:
  assumes "\<not> ((r = vel X_DIM \<or> r = vel Y_DIM) \<and> k = 1 \<and> 1 \<le> i \<and> i \<le> N X_DIM \<and> 1 \<le> j \<and> j \<le> N Y_DIM)"
  shows "project_grad N Lx Ly vel p st r i j k = st r i j k"
  unfolding project_grad_def
  by (rule loop2_frame [where R = "{vel X_DIM, vel Y_DIM}"])
     (use assms in \<open>auto simp: wr_apply Let_def\<close>)

lemma project_grad_cell:
  assumes ne: "vel X_DIM \<noteq> vel Y_DIM" "vel X_DIM \<noteq> p" "vel Y_DIM \<noteq> p"
    and act: "1 \<le> i" "i \<le> N X_DIM" "1 \<le> j" "j \<le> N Y_DIM"
  shows "project_grad N Lx Ly vel p st (vel X_DIM) i j 1 =
      st (vel X_DIM) i j 1 - 0.5 * (st p (i + 1) j 1 - st p (i - 1) j 1) / Lx"
    and "project_grad N Lx Ly vel p st (vel Y_DIM) i j 1 =
      st (vel Y_DIM) i j 1 - 0.5 * (st p i (j + 1) 1 - st p i (j - 1) 1) / Ly"
proof -
  define b where "b = (\<lambda>i j (st::store).
         let st = wr st (vel X_DIM) i j 1
               (st (vel X_DIM) i j 1 - 0.5 * (st p (i + 1) j 1 - st p (i - 1) j 1) / Lx)
         in wr st (vel Y_DIM) i j 1
               (st (vel Y_DIM) i j 1 - 0.5 * (st p i (j + 1) 1 - st p i (j - 1) 1) / Ly))"
  have S': "project_grad N Lx Ly vel p st = for_loop 1 (N X_DIM) (\<lambda>i. for_loop 1 (N Y_DIM) (b i)) st"
    by (simp add: project_grad_def b_def)
  have fr: "\<And>i j t r i' j' k. 1 \<le> i \<Longrightarrow> i \<le> N X_DIM \<Longrightarrow> 1 \<le> j \<Longrightarrow> j \<le> N Y_DIM \<Longrightarrow>
      \<not> (r \<in> {vel X_DIM, vel Y_DIM} \<and> i' = i \<and> j' = j \<and> k = 1) \<Longrightarrow> b i j t r i' j' k = t r i' j' k"
    by (auto simp: b_def wr_apply Let_def)
  obtain T where T1: "\<forall>r\<in>{vel X_DIM, vel Y_DIM}. project_grad N Lx Ly vel p st r i j 1 = b i j T r i j 1"
    and T2: "\<And>r i' j' k. T r i' j' k =
          (if r \<in> {vel X_DIM, vel Y_DIM} \<and> k = 1 \<and> 1 \<le> i' \<and> i' \<le> N X_DIM \<and> 1 \<le> j' \<and> j' \<le> N Y_DIM \<and> (i' < i \<or> i' = i \<and> j' < j)
           then project_grad N Lx Ly vel p st r i' j' k else st r i' j' k)"
    using loop2_cell [of "N X_DIM" "N Y_DIM" "{vel X_DIM, vel Y_DIM}" b i j st, OF fr act]
    unfolding S' by blast
  have pp: "\<And>i' j'. T p i' j' 1 = st p i' j' 1" using ne by (simp add: T2)
  have vx: "T (vel X_DIM) i j 1 = st (vel X_DIM) i j 1" by (simp add: T2)
  have vy: "T (vel Y_DIM) i j 1 = st (vel Y_DIM) i j 1" by (simp add: T2)
  have "b i j T (vel X_DIM) i j 1 =
      T (vel X_DIM) i j 1 - 0.5 * (T p (i + 1) j 1 - T p (i - 1) j 1) / Lx"
    using ne by (simp add: b_def wr_apply Let_def)
  then show "project_grad N Lx Ly vel p st (vel X_DIM) i j 1 =
      st (vel X_DIM) i j 1 - 0.5 * (st p (i + 1) j 1 - st p (i - 1) j 1) / Lx"
    using T1 unfolding pp vx by simp
  have "b i j T (vel Y_DIM) i j 1 =
      T (vel Y_DIM) i j 1 - 0.5 * (T p i (j + 1) 1 - T p i (j - 1) 1) / Ly"
    using ne by (simp add: b_def wr_apply Let_def)
  then show "project_grad N Lx Ly vel p st (vel Y_DIM) i j 1 =
      st (vel Y_DIM) i j 1 - 0.5 * (st p i (j + 1) 1 - st p i (j - 1) 1) / Ly"
    using T1 unfolding pp vy by simp
qed

lemma project_unfold:
  "project N vel buf st =
     (let Lx = 1 / real_of_int (N X_DIM);
          Ly = 1 / real_of_int (N Y_DIM);
          p = buf X_DIM;
          dv = buf Y_DIM;
          fill = (\<lambda>r mode s. s(r := setBoundary N (s r) mode))
      in fill (vel Y_DIM) BOUNDARY_OPPOSE_Y
          (fill (vel X_DIM) BOUNDARY_OPPOSE_X
            (project_grad N Lx Ly vel p
              (((\<lambda>s. fill p BOUNDARY_MIRROR (project_sweep N p dv s)) ^^ 20)
                (fill p BOUNDARY_MIRROR
                  (fill dv BOUNDARY_MIRROR (project_div N Lx Ly vel p dv st)))))))"
  by (simp add: project_def Let_def solver_iterations)

text \<open>
  Claim C1. \<open>project(vel, buf)\<close>, on four different arrays \<open>velX\<close>, \<open>velY\<close>, \<open>p = buf[X]\<close> and
  \<open>div = buf[Y]\<close>, is in this order: (a, b) the loop that writes into every active cell
  \<open>div[i][j] = -0.5 * (Lx * (velX[i+1][j] - velX[i-1][j]) + Ly * (velY[i][j+1] - velY[i][j-1]))\<close>
  with \<open>Lx = 1/Nx\<close> and \<open>Ly = 1/Ny\<close>, and \<open>p[i][j] = 0\<close>; (c) the \<open>MIRROR\<close> boundary fill of \<open>div\<close>
  and of \<open>p\<close>; (d) exactly twenty Gauss-Seidel sweeps
  \<open>p[i][j] = (div[i][j] + p[i-1][j] + p[i+1][j] + p[i][j-1] + p[i][j+1]) / 4\<close>, each followed
  by the \<open>MIRROR\<close> fill of \<open>p\<close>; (e) the loop that subtracts \<open>0.5 * (p[i+1][j] - p[i-1][j]) / Lx\<close>
  from \<open>velX[i][j]\<close> and \<open>0.5 * (p[i][j+1] - p[i][j-1]) / Ly\<close> from \<open>velY[i][j]\<close> at every active
  cell; (f) the \<open>OPPOSE_X\<close> fill of \<open>velX\<close>, then the \<open>OPPOSE_Y\<close> fill of \<open>velY\<close>. Each loop
  changes nothing but the cells named.
\<close>

theorem project_in_six_steps:
  assumes "buf X_DIM \<noteq> buf Y_DIM" and "vel X_DIM \<noteq> vel Y_DIM"
    and "vel X_DIM \<noteq> buf X_DIM" and "vel X_DIM \<noteq> buf Y_DIM"
    and "vel Y_DIM \<noteq> buf X_DIM" and "vel Y_DIM \<noteq> buf Y_DIM"
  shows
    "(let Lx = 1 / real_of_int (N X_DIM);
          Ly = 1 / real_of_int (N Y_DIM);
          p = buf X_DIM;
          dv = buf Y_DIM;
          fill = (\<lambda>r mode s. s(r := setBoundary N (s r) mode))
      in project N vel buf st =
           fill (vel Y_DIM) BOUNDARY_OPPOSE_Y
            (fill (vel X_DIM) BOUNDARY_OPPOSE_X
              (project_grad N Lx Ly vel p
                (((\<lambda>s. fill p BOUNDARY_MIRROR (project_sweep N p dv s)) ^^ 20)
                  (fill p BOUNDARY_MIRROR
                    (fill dv BOUNDARY_MIRROR (project_div N Lx Ly vel p dv st))))))
       \<and> (\<forall>s i j. 1 \<le> i \<and> i \<le> N X_DIM \<and> 1 \<le> j \<and> j \<le> N Y_DIM \<longrightarrow>
             project_div N Lx Ly vel p dv s dv i j 1 =
               - 0.5 * (Lx * (s (vel X_DIM) (i + 1) j 1 - s (vel X_DIM) (i - 1) j 1) +
                        Ly * (s (vel Y_DIM) i (j + 1) 1 - s (vel Y_DIM) i (j - 1) 1))
           \<and> project_div N Lx Ly vel p dv s p i j 1 = 0)
       \<and> (\<forall>s r i j k.
             \<not> ((r = dv \<or> r = p) \<and> k = 1 \<and> 1 \<le> i \<and> i \<le> N X_DIM \<and> 1 \<le> j \<and> j \<le> N Y_DIM) \<longrightarrow>
             project_div N Lx Ly vel p dv s r i j k = s r i j k)
       \<and> (\<forall>s i j. 1 \<le> i \<and> i \<le> N X_DIM \<and> 1 \<le> j \<and> j \<le> N Y_DIM \<longrightarrow>
             project_sweep N p dv s p i j 1 =
               (s dv i j 1
                + project_sweep N p dv s p (i - 1) j 1 + s p (i + 1) j 1
                + project_sweep N p dv s p i (j - 1) 1 + s p i (j + 1) 1)
               / 4)
       \<and> (\<forall>s r i j k.
             \<not> (r = p \<and> k = 1 \<and> 1 \<le> i \<and> i \<le> N X_DIM \<and> 1 \<le> j \<and> j \<le> N Y_DIM) \<longrightarrow>
             project_sweep N p dv s r i j k = s r i j k)
       \<and> (\<forall>s i j. 1 \<le> i \<and> i \<le> N X_DIM \<and> 1 \<le> j \<and> j \<le> N Y_DIM \<longrightarrow>
             project_grad N Lx Ly vel p s (vel X_DIM) i j 1 =
               s (vel X_DIM) i j 1 - 0.5 * (s p (i + 1) j 1 - s p (i - 1) j 1) / Lx
           \<and> project_grad N Lx Ly vel p s (vel Y_DIM) i j 1 =
               s (vel Y_DIM) i j 1 - 0.5 * (s p i (j + 1) 1 - s p i (j - 1) 1) / Ly)
       \<and> (\<forall>s r i j k.
             \<not> ((r = vel X_DIM \<or> r = vel Y_DIM) \<and> k = 1
                \<and> 1 \<le> i \<and> i \<le> N X_DIM \<and> 1 \<le> j \<and> j \<le> N Y_DIM) \<longrightarrow>
             project_grad N Lx Ly vel p s r i j k = s r i j k))"
proof -
  have ne: "buf X_DIM \<noteq> buf Y_DIM" "vel X_DIM \<noteq> buf X_DIM" "vel X_DIM \<noteq> buf Y_DIM"
    "vel Y_DIM \<noteq> buf X_DIM" "vel Y_DIM \<noteq> buf Y_DIM" "vel X_DIM \<noteq> vel Y_DIM"
    using assms by simp_all
  show ?thesis
    unfolding Let_def
    by (intro conjI)
       (rule project_unfold [unfolded Let_def],
        use ne in \<open>simp_all add: project_div_cell project_div_frame project_sweep_cell
          project_sweep_frame project_grad_cell project_grad_frame\<close>)
qed


theorem project_in_six_steps_witness:
  "(2::nat) \<noteq> 3 \<and> (0::nat) \<noteq> 1 \<and> (0::nat) \<noteq> 2 \<and> (0::nat) \<noteq> 3 \<and> (1::nat) \<noteq> 2 \<and> (1::nat) \<noteq> 3
   \<and> project_div (\<lambda>d. 1) 1 1 (\<lambda>d. nat d) 2 3
        (\<lambda>r i j k. if r = 0 then real_of_int i else 0) 3 1 1 1 = - 1
   \<and> project_div (\<lambda>d. 1) 1 1 (\<lambda>d. nat d) 2 3
        (\<lambda>r i j k. if r = 0 then real_of_int i else 0) 2 1 1 1 = 0
   \<and> project_grad (\<lambda>d. 1) 1 1 (\<lambda>d. nat d) 2
        (\<lambda>r i j k. if r = 2 then real_of_int (i + 3 * j) else 7) 1 1 1 1 = 4"
proof -
  define N :: "int \<Rightarrow> int" where "N = (\<lambda>d. 1)"
  define vel :: "int \<Rightarrow> ref" where "vel = (\<lambda>d. nat d)"
  define buf :: "int \<Rightarrow> ref" where "buf = (\<lambda>d. 2 + nat d)"
  define s1 :: store where "s1 = (\<lambda>r i j k. if r = 0 then real_of_int i else 0)"
  define s2 :: store where "s2 = (\<lambda>r i j k. if r = 2 then real_of_int (i + 3 * j) else 7)"
  have h: "buf X_DIM \<noteq> buf Y_DIM" "vel X_DIM \<noteq> vel Y_DIM"
    "vel X_DIM \<noteq> buf X_DIM" "vel X_DIM \<noteq> buf Y_DIM"
    "vel Y_DIM \<noteq> buf X_DIM" "vel Y_DIM \<noteq> buf Y_DIM"
    by (simp_all add: buf_def vel_def X_DIM_def Y_DIM_def)
  note t = project_in_six_steps [OF h, of N s1, unfolded Let_def]
  have v: "vel X_DIM = 0" "vel Y_DIM = 1" "buf X_DIM = 2" "buf Y_DIM = 3" "N X_DIM = 1" "N Y_DIM = 1"
    by (simp_all add: buf_def vel_def N_def X_DIM_def Y_DIM_def)
  have act: "1 \<le> (1::int) \<and> (1::int) \<le> N X_DIM \<and> 1 \<le> (1::int) \<and> (1::int) \<le> N Y_DIM"
    by (simp add: v)
  note c2 = t [THEN conjunct2, THEN conjunct1, rule_format, of 1 1 s1, OF act]
  note c6 = t [THEN conjunct2, THEN conjunct2, THEN conjunct2, THEN conjunct2, THEN conjunct2,
      THEN conjunct1, rule_format, of 1 1 s2, OF act]
  note d = c2 [THEN conjunct1] and z = c2 [THEN conjunct2] and g = c6 [THEN conjunct2]
  have d': "project_div N 1 1 vel 2 3 s1 3 1 1 1 = - 1"
    using d by (simp add: v s1_def)
  have z': "project_div N 1 1 vel 2 3 s1 2 1 1 1 = 0"
    using z by (simp add: v)
  have g': "project_grad N 1 1 vel 2 s2 1 1 1 1 = 4"
    using g by (simp add: v s2_def)
  show ?thesis using d' z' g' unfolding N_def vel_def s1_def s2_def by simp
qed

section \<open>The velocity step\<close>

lemma for_loop_three: "for_loop 0 2 body s = body 2 (body 1 (body 0 s))"
  by (simp add: for_loop_def upto.simps)

lemma dimension_modes:
  "X_DIM + 1 = BOUNDARY_OPPOSE_X" "Y_DIM + 1 = BOUNDARY_OPPOSE_Y"
  by (simp_all add: X_DIM_def Y_DIM_def BOUNDARY_OPPOSE_X_def BOUNDARY_OPPOSE_Y_def)

lemma vStep_add_loop:
  "for_loop 0 (N_DIMS - 1) (\<lambda>dim S.
      let S = this_addSource S (grid_vel (sim_grid S) dim) (grid_prev_vel (sim_grid S) dim)
      in this_addSource S (grid_vel (sim_grid S) dim) (sim_v_src S dim)) S =
   vStep_add Z_DIM (vStep_add Y_DIM (vStep_add X_DIM S))"
proof -
  have n: "N_DIMS - 1 = 2" by (simp add: N_DIMS_def)
  have g: "\<And>S dest source. sim_grid (this_addSource S dest source) = sim_grid S"
    "\<And>S dest source. sim_v_src (this_addSource S dest source) = sim_v_src S"
    by (simp_all add: this_addSource_def)
  have e: "(\<lambda>dim S.
      let S = this_addSource S (grid_vel (sim_grid S) dim) (grid_prev_vel (sim_grid S) dim)
      in this_addSource S (grid_vel (sim_grid S) dim) (sim_v_src S dim)) = vStep_add"
    by (simp add: fun_eq_iff vStep_add_def Let_def g)
  show ?thesis
    unfolding e n for_loop_three by (simp add: X_DIM_def Y_DIM_def Z_DIM_def)
qed

lemma vStep_diffuse_loop:
  "for_loop 0 (N_DIMS - 1) (\<lambda>dim S.
      this_diffuse S (grid_vel (sim_grid S) dim) (grid_prev_vel (sim_grid S) dim)
        (sim_visc S) (dim + 1)) S =
   vStep_diffuse Z_DIM (Z_DIM + 1)
     (vStep_diffuse Y_DIM BOUNDARY_OPPOSE_Y (vStep_diffuse X_DIM BOUNDARY_OPPOSE_X S))"
proof -
  have n: "N_DIMS - 1 = 2" by (simp add: N_DIMS_def)
  have e: "(\<lambda>dim S.
      this_diffuse S (grid_vel (sim_grid S) dim) (grid_prev_vel (sim_grid S) dim)
        (sim_visc S) (dim + 1)) = (\<lambda>dim. vStep_diffuse dim (dim + 1))"
    by (simp add: fun_eq_iff vStep_diffuse_def)
  show ?thesis
    unfolding e n for_loop_three
    by (simp add: X_DIM_def Y_DIM_def Z_DIM_def BOUNDARY_OPPOSE_X_def BOUNDARY_OPPOSE_Y_def)
qed

lemma vStep_advect_loop:
  "for_loop 0 (N_DIMS - 1) (\<lambda>dim acc.
      Option.bind acc (\<lambda>S.
        this_advect S (grid_vel (sim_grid S) dim) (grid_prev_vel (sim_grid S) dim)
          (grid_vel (sim_grid S)) (dim + 1))) (Some S) =
   Option.bind
     (Option.bind (vStep_advect X_DIM BOUNDARY_OPPOSE_X S)
        (vStep_advect Y_DIM BOUNDARY_OPPOSE_Y))
     (vStep_advect Z_DIM (Z_DIM + 1))"
proof -
  have n: "N_DIMS - 1 = 2" by (simp add: N_DIMS_def)
  have e: "(\<lambda>dim acc.
      Option.bind acc (\<lambda>S.
        this_advect S (grid_vel (sim_grid S) dim) (grid_prev_vel (sim_grid S) dim)
          (grid_vel (sim_grid S)) (dim + 1))) =
      (\<lambda>dim acc. Option.bind acc (vStep_advect dim (dim + 1)))"
  proof -
    have a: "\<And>d m. vStep_advect d m = (\<lambda>S.
        this_advect S (grid_vel (sim_grid S) d) (grid_prev_vel (sim_grid S) d)
          (grid_vel (sim_grid S)) m)"
      by (simp add: fun_eq_iff vStep_advect_def)
    show ?thesis by (simp add: a)
  qed
  show ?thesis
    unfolding e n for_loop_three
    by (simp add: X_DIM_def Y_DIM_def Z_DIM_def BOUNDARY_OPPOSE_X_def BOUNDARY_OPPOSE_Y_def)
qed

text \<open>
  Claim C5. \<open>vStep()\<close> is, in this order: for each dimension the addition of the previous
  velocity and then of the persistent source into the current velocity; the swap of
  current and previous velocity; the diffusion of each component against the viscosity,
  with the boundary mode of its dimension index plus one (\<open>OPPOSE_X\<close> for the X component,
  \<open>OPPOSE_Y\<close> for the Y component); the projection; the swap; the advection of each
  component through the current velocity field with the same modes; the projection.
\<close>

theorem vStep_order:
  "vStep S = vStep_in_order S
   \<and> X_DIM + 1 = BOUNDARY_OPPOSE_X \<and> Y_DIM + 1 = BOUNDARY_OPPOSE_Y"
  unfolding vStep_def vStep_add_loop vStep_diffuse_loop vStep_advect_loop
    vStep_project_def [symmetric] vStep_in_order_def
  by (simp add: Let_def dimension_modes)

section \<open>Construction\<close>

text \<open>
  Claim C7 asks the constructor to fail on an invalid configuration. It does not: with
  a negative viscosity and a time step of zero, on a grid of 50 cells per axis, it
  returns a simulator that holds these values.
\<close>

theorem Simulator_accepts_invalid_configuration:
  "\<not> isl (Simulator 50 500 500 (- 1) (1 / 10) 0)
   \<and> sim_visc (projr (Simulator 50 500 500 (- 1) (1 / 10) 0)) = - 1
   \<and> sim_timeStep (projr (Simulator 50 500 500 (- 1) (1 / 10) 0)) = 0"
  by (simp add: Simulator_def Let_def Grid_def array3_def X_DIM_def Y_DIM_def)

text \<open>
  Claim C7, as the code has it. The constructor validates nothing: with a grid of at
  least 24 cells per axis it returns a simulator for every viscosity, diffusion constant
  and time step, negative and zero values included, and stores them as given.
\<close>

theorem Simulator_stores_unvalidated:
  assumes "24 \<le> N"
  shows "\<exists>S. Simulator N width height visc diff timeStep = Inr S
    \<and> sim_visc S = visc \<and> sim_diff S = diff \<and> sim_timeStep S = timeStep
    \<and> grid_N (sim_grid S) X_DIM = N \<and> grid_N (sim_grid S) Y_DIM = N"
  using assms
  by (simp add: Simulator_def Let_def Grid_def array3_def X_DIM_def Y_DIM_def)

theorem Simulator_stores_unvalidated_witness:
  "(24::int) \<le> 24 \<and>
   (\<exists>S. Simulator 24 500 500 (- 1) (- 2) 0 = Inr S
      \<and> sim_visc S = - 1 \<and> sim_diff S = - 2 \<and> sim_timeStep S = 0)"
proof -
  have h: "(24::int) \<le> 24" by simp
  show ?thesis
    using Simulator_stores_unvalidated [OF h, of 500 500 "- 1" "- 2" 0] h by blast
qed

end
